theory Spec2Isabelle
  imports Main "HOL-Library.Word" "HOL-Library.Sublist"
begin

section \<open>Strings crossing the C boundary\<close>

text \<open>
  The bridge hands strings to the host as \<^verbatim>\<open>const char*\<close>. Such a value is modelled as
  \<open>string option\<close>: \<open>None\<close> is the null pointer, \<open>Some s\<close> is a pointer to the bytes \<open>s\<close>
  followed by the terminating NUL, so \<open>s\<close> holds no NUL itself.
\<close>

definition NUL :: char where
  "NUL = CHR 0x00"

definition c_str :: "string \<Rightarrow> string" where
  \<comment> \<open>what a \<^verbatim>\<open>char*\<close> to the bytes \<open>s\<close> (then a NUL) denotes: the bytes before the first NUL\<close>
  "c_str s = takeWhile (\<lambda>c. c \<noteq> NUL) s"

text \<open>
  \<^verbatim>\<open>String::Utf8Value\<close> is the engine's UTF-8 rendering of a value: a buffer and its length.
  \<open>None\<close> is the failed conversion (null buffer, length 0).
\<close>

type_synonym Utf8Value = "string option"

definition utf8_length :: "Utf8Value \<Rightarrow> nat" where
  "utf8_length v = (case v of None \<Rightarrow> 0 | Some s \<Rightarrow> length s)"

definition CopyString :: "string \<Rightarrow> string option" where
  \<comment> \<open>\<^verbatim>\<open>CopyString(std::string)\<close>: malloc len + 1, memcpy len bytes, terminate\<close>
  "CopyString str = Some (c_str str)"

definition CopyString_utf8 :: "Utf8Value \<Rightarrow> string option" where
  \<comment> \<open>\<^verbatim>\<open>CopyString(String::Utf8Value&)\<close>: null for length 0, else \<^verbatim>\<open>CopyString(*value)\<close>,
      where the \<^verbatim>\<open>char*\<close> converts to a \<^verbatim>\<open>std::string\<close> up to its first NUL\<close>
  "CopyString_utf8 v =
     (if utf8_length v = 0 then None
      else case v of None \<Rightarrow> None | Some s \<Rightarrow> CopyString (c_str s))"

subsection \<open>Decimal output of \<^verbatim>\<open>std::ostringstream\<close>\<close>

definition digit :: "nat \<Rightarrow> char" where
  "digit d = char_of (48 + d)"

function show_nat :: "nat \<Rightarrow> string" where
  "show_nat n = (if n < 10 then [digit n] else show_nat (n div 10) @ [digit (n mod 10)])"
  by pat_completeness auto
termination
  by (relation "measure id") auto

declare show_nat.simps [simp del]

definition show_int :: "int \<Rightarrow> string" where
  "show_int i = (if i < 0 then CHR ''-'' # show_nat (nat (- i)) else show_nat (nat i))"

section \<open>Error Translator\<close>

text \<open>
  What the engine reports through a \<^verbatim>\<open>TryCatch\<close>. The fields are the results of the
  engine calls \<^verbatim>\<open>ExceptionError\<close> makes: \<^verbatim>\<open>HasTerminated()\<close>, the UTF-8 rendering of
  \<^verbatim>\<open>Exception()\<close>, \<^verbatim>\<open>Message()\<close> (\<open>None\<close> for an empty handle) and the UTF-8 rendering of
  \<^verbatim>\<open>StackTrace(ctx)\<close> (\<open>None\<close> when the \<^verbatim>\<open>MaybeLocal\<close> is empty). A message carries the
  rendering of its script origin's resource name and the two \<^verbatim>\<open>Maybe<int>\<close> positions.
  The resource name is taken to render to a string, as a script name or the engine's
  undefined value does. For a position in a script the engine counts lines from 1 and
  columns from 0; for an exception without one it supplies line 0 and column -1.
\<close>

type_synonym int32 = "32 word"

record v8_Message =
  ResourceName :: string
  GetLineNumber :: "int32 option"
  GetStartColumn :: "int32 option"

record TryCatch =
  HasTerminated :: bool
  Exception :: Utf8Value
  Message :: "v8_Message option"
  StackTrace :: "Utf8Value option"

record RtnError =
  msg :: "string option"
  location :: "string option"
  stack :: "string option"

definition terminated_message :: string where
  "terminated_message = ''ExecutionTerminated: script execution has been terminated''"

definition location_string :: "v8_Message \<Rightarrow> string" where
  \<comment> \<open>the contents of the stream \<^verbatim>\<open>sb\<close> after the three insertions\<close>
  "location_string m =
     (let sb = c_str (ResourceName m);
          sb = (case GetLineNumber m of
                  None \<Rightarrow> sb
                | Some line \<Rightarrow> sb @ '':'' @ show_int (sint line));
          sb = (case GetStartColumn m of
                  None \<Rightarrow> sb
                | Some start \<Rightarrow> sb @ '':'' @ show_int (sint (start + 1)))
      in sb)"

definition ExceptionError :: "TryCatch \<Rightarrow> RtnError" where
  "ExceptionError try_catch =
     (let rtn = \<lparr>msg = None, location = None, stack = None\<rparr>
      in if HasTerminated try_catch
         then rtn\<lparr>msg := CopyString terminated_message\<rparr>
         else
           let rtn = rtn\<lparr>msg := CopyString_utf8 (Exception try_catch)\<rparr>;
               rtn = (case Message try_catch of
                        None \<Rightarrow> rtn
                      | Some m \<Rightarrow> rtn\<lparr>location := CopyString (location_string m)\<rparr>);
               rtn = (case StackTrace try_catch of
                        None \<Rightarrow> rtn
                      | Some mstack \<Rightarrow> rtn\<lparr>stack := CopyString_utf8 mstack\<rparr>)
           in rtn)"

section \<open>Engine values and handles\<close>

text \<open>
  The script engine is an external collaborator. Its values are modelled by a small
  datatype that keeps the kinds the bridge itself constructs or inspects; every other
  heap object is \<open>Object\<close> with an identity. \<^verbatim>\<open>IsName\<close> is the engine's predicate
  "string or symbol". A \<^verbatim>\<open>Local\<close>, \<^verbatim>\<open>MaybeLocal\<close> or \<^verbatim>\<open>Persistent\<close> handle is an option:
  \<open>None\<close> is the empty handle. The enumerations \<^verbatim>\<open>ErrorTypeIndex\<close> and \<^verbatim>\<open>SymbolIndex\<close>
  are declared in the header; the host passes them as C integers, so the operations
  take the integer and a table \<open>E\<close> of the enumerators' values.
\<close>

datatype ErrorType =
  ERROR_RANGE | ERROR_REFERENCE | ERROR_SYNTAX | ERROR_TYPE
  | ERROR_WASM_COMPILE | ERROR_WASM_LINK | ERROR_WASM_RUNTIME | ERROR_GENERIC

datatype SymbolName =
  SYMBOL_ASYNC_ITERATOR | SYMBOL_HAS_INSTANCE | SYMBOL_IS_CONCAT_SPREADABLE
  | SYMBOL_ITERATOR | SYMBOL_MATCH | SYMBOL_REPLACE | SYMBOL_SEARCH | SYMBOL_SPLIT
  | SYMBOL_TO_PRIMITIVE | SYMBOL_TO_STRING_TAG | SYMBOL_UNSCOPABLES

datatype v8_value =
  Undefined
  | Null
  | Boolean bool
  | Integer int
  | Number "64 word"
  | BigInt int
  | String string
  | WellKnownSymbol SymbolName
  | Symbol nat
  | NativeError ErrorType v8_value
  | Object nat

fun IsName :: "v8_value \<Rightarrow> bool" where
  "IsName (String _) = True"
| "IsName (WellKnownSymbol _) = True"
| "IsName (Symbol _) = True"
| "IsName _ = False"

record v8_context =
  EmbedderData1 :: "int32 option"
  Global :: v8_value

datatype template_kind = ObjectTemplate | FunctionTemplate int32

datatype template_data = DataValue v8_value | DataTemplate nat

record v8_template =
  kind :: template_kind
  properties :: "(v8_value \<times> template_data \<times> int32) list"

section \<open>The bridge's own heap\<close>

text \<open>
  Pointers are addresses; a pointer parameter that the host may pass as null is a
  \<open>nat option\<close>. The store maps the live addresses to the structs of the source
  (\<^verbatim>\<open>m_ctx\<close>, \<^verbatim>\<open>m_value\<close>, \<^verbatim>\<open>m_template\<close>): \<^verbatim>\<open>new\<close> takes the next address,
  \<^verbatim>\<open>delete\<close> removes the entry, and reading through a null or deleted pointer is a
  fault. \<open>trace\<close> records the releases in the order the code performs them.
\<close>

datatype fault = NullPointer | DanglingPointer | EmptyHandle

datatype event =
  ResetContext nat | ResetValue nat | DeleteValue nat | DeleteContext nat
  | DisposeIsolate nat | DeleteTemplate nat

record m_ctx =
  ctx_iso :: nat
  ctx_vals :: "nat list"
  ctx_ptr :: "v8_context option"

record m_value =
  val_iso :: nat
  val_ctx :: "nat option"
  val_ptr :: "v8_value option"

record m_template =
  tmpl_iso :: nat
  tmpl_ptr :: "nat option"

record Isolate =
  GetData0 :: "nat option"

record store =
  isos :: "nat \<rightharpoonup> Isolate"
  ctxs :: "nat \<rightharpoonup> m_ctx"
  vals :: "nat \<rightharpoonup> m_value"
  tmpls :: "nat \<rightharpoonup> m_template"
  engine_templates :: "nat \<rightharpoonup> v8_template"
  next_addr :: nat
  trace :: "event list"

record RtnValue =
  rtn_value :: "nat option"
  rtn_error :: RtnError

definition bnd :: "fault + 'a \<Rightarrow> ('a \<Rightarrow> fault + 'b) \<Rightarrow> fault + 'b" where
  "bnd m f = (case m of Inl e \<Rightarrow> Inl e | Inr x \<Rightarrow> f x)"

definition deref :: "(nat \<rightharpoonup> 'a) \<Rightarrow> nat option \<Rightarrow> fault + 'a" where
  "deref h p =
     (case p of
        None \<Rightarrow> Inl NullPointer
      | Some a \<Rightarrow> (case h a of None \<Rightarrow> Inl DanglingPointer | Some x \<Rightarrow> Inr x))"

definition nonempty :: "'a option \<Rightarrow> fault + 'a" where
  \<comment> \<open>using an empty handle (\<^verbatim>\<open>ToLocalChecked\<close>, \<^verbatim>\<open>Context::Scope\<close>, \<^verbatim>\<open>operator->\<close>)\<close>
  "nonempty h = (case h of None \<Rightarrow> Inl EmptyHandle | Some x \<Rightarrow> Inr x)"

definition no_error :: RtnError where
  "no_error = \<lparr>msg = None, location = None, stack = None\<rparr>"

section \<open>Handle Registry\<close>

definition tracked_value :: "nat option \<Rightarrow> nat \<Rightarrow> store \<Rightarrow> fault + (nat \<times> store)" where
  \<comment> \<open>\<^verbatim>\<open>ctx->vals.push_back(val); return val;\<close>\<close>
  "tracked_value ctx val s =
     bnd (deref (ctxs s) ctx) (\<lambda>x.
       Inr (val, s\<lparr>ctxs := (ctxs s)(the ctx \<mapsto> x\<lparr>ctx_vals := ctx_vals x @ [val]\<rparr>)\<rparr>))"

definition new_m_value :: "m_value \<Rightarrow> store \<Rightarrow> nat \<times> store" where
  \<comment> \<open>\<^verbatim>\<open>new m_value\<close> with its three fields assigned\<close>
  "new_m_value m s =
     (next_addr s, s\<lparr>vals := (vals s)(next_addr s \<mapsto> m), next_addr := Suc (next_addr s)\<rparr>)"

definition new_tracked_value ::
  "nat \<Rightarrow> nat option \<Rightarrow> v8_value option \<Rightarrow> store \<Rightarrow> fault + (nat \<times> store)" where
  \<comment> \<open>the block every creating operation ends with:
      \<^verbatim>\<open>m_value* val = new m_value; val->iso = iso; val->ctx = ctx; val->ptr = Persistent(iso, x);
      ... tracked_value(ctx, val)\<close>\<close>
  "new_tracked_value isolate ctx x s =
     (case new_m_value \<lparr>val_iso = isolate, val_ctx = ctx, val_ptr = x\<rparr> s of
        (val, s') \<Rightarrow> tracked_value ctx val s')"

definition rtn_failed :: "TryCatch \<Rightarrow> store \<Rightarrow> fault + (RtnValue \<times> store)" where
  \<comment> \<open>\<^verbatim>\<open>rtn.error = ExceptionError(try_catch, iso, local_ctx); return rtn;\<close>\<close>
  "rtn_failed try_catch s = Inr (\<lparr>rtn_value = None, rtn_error = ExceptionError try_catch\<rparr>, s)"

definition rtn_tracked ::
  "nat \<Rightarrow> nat option \<Rightarrow> v8_value option \<Rightarrow> store \<Rightarrow> fault + (RtnValue \<times> store)" where
  \<comment> \<open>the creating block, then \<^verbatim>\<open>rtn.value = tracked_value(ctx, val); return rtn;\<close>\<close>
  "rtn_tracked isolate ctx x s =
     bnd (new_tracked_value isolate ctx x s) (\<lambda>(val, s').
       Inr (\<lparr>rtn_value = Some val, rtn_error = no_error\<rparr>, s'))"

section \<open>Scopes\<close>

text \<open>
  The macros that open every entry point. Each reads through the pointers it is given
  and enters the isolate and the context, so each can fault; what it binds is returned.
\<close>

definition ISOLATE_SCOPE :: "store \<Rightarrow> nat option \<Rightarrow> fault + nat" where
  \<comment> \<open>\<^verbatim>\<open>Locker locker(iso); Isolate::Scope isolate_scope(iso); HandleScope handle_scope(iso);\<close>\<close>
  "ISOLATE_SCOPE s isolate = bnd (deref (isos s) isolate) (\<lambda>_. Inr (the isolate))"

definition isolateInternalContext :: "store \<Rightarrow> nat \<Rightarrow> fault + nat option" where
  \<comment> \<open>\<^verbatim>\<open>static_cast<m_ctx*>(iso->GetData(0))\<close>\<close>
  "isolateInternalContext s isolate =
     bnd (deref (isos s) (Some isolate)) (\<lambda>i. Inr (GetData0 i))"

definition ISOLATE_SCOPE_INTERNAL_CONTEXT ::
  "store \<Rightarrow> nat option \<Rightarrow> fault + (nat \<times> nat option)" where
  "ISOLATE_SCOPE_INTERNAL_CONTEXT s isolate =
     bnd (ISOLATE_SCOPE s isolate) (\<lambda>i.
     bnd (isolateInternalContext s i) (\<lambda>ctx. Inr (i, ctx)))"

definition LOCAL_CONTEXT :: "store \<Rightarrow> nat option \<Rightarrow> fault + (nat \<times> v8_context)" where
  "LOCAL_CONTEXT s ctx =
     bnd (deref (ctxs s) ctx) (\<lambda>x.
     bnd (ISOLATE_SCOPE s (Some (ctx_iso x))) (\<lambda>i.
     bnd (nonempty (ctx_ptr x)) (\<lambda>local_ctx. Inr (i, local_ctx))))"

definition LOCAL_VALUE ::
  "store \<Rightarrow> nat option \<Rightarrow> fault + (nat \<times> nat option \<times> v8_context \<times> v8_value option)" where
  "LOCAL_VALUE s val =
     bnd (deref (vals s) val) (\<lambda>m.
     bnd (ISOLATE_SCOPE s (Some (val_iso m))) (\<lambda>i.
     bnd (if val_ctx m \<noteq> None then Inr (val_ctx m) else isolateInternalContext s i) (\<lambda>ctx.
     bnd (deref (ctxs s) ctx) (\<lambda>x.
     bnd (nonempty (ctx_ptr x)) (\<lambda>local_ctx. Inr (i, ctx, local_ctx, val_ptr m))))))"

definition LOCAL_TEMPLATE :: "store \<Rightarrow> nat option \<Rightarrow> fault + (nat \<times> nat option)" where
  "LOCAL_TEMPLATE s tmpl_ptr' =
     bnd (deref (tmpls s) tmpl_ptr') (\<lambda>t.
     bnd (ISOLATE_SCOPE s (Some (tmpl_iso t))) (\<lambda>i. Inr (i, tmpl_ptr t)))"

section \<open>Isolate\<close>

definition NewIsolate :: "v8_context \<Rightarrow> store \<Rightarrow> nat \<times> store" where
  \<comment> \<open>\<open>e_context\<close> is the context \<^verbatim>\<open>Context::New(iso)\<close> made for internal use\<close>
  "NewIsolate e_context s =
     (let isolate = next_addr s; ctx = Suc (next_addr s)
      in (isolate,
          s\<lparr>ctxs := (ctxs s)(ctx \<mapsto> \<lparr>ctx_iso = isolate, ctx_vals = [], ctx_ptr = Some e_context\<rparr>),
            isos := (isos s)(isolate \<mapsto> \<lparr>GetData0 = Some ctx\<rparr>),
            next_addr := Suc (Suc (next_addr s))\<rparr>))"

subsection \<open>Releasing a context\<close>

fun release_values :: "nat list \<Rightarrow> store \<Rightarrow> fault + store" where
  \<comment> \<open>\<^verbatim>\<open>for (m_value* val : ctx->vals) { val->ptr.Reset(); delete val; }\<close>\<close>
  "release_values [] s = Inr s"
| "release_values (val # rest) s =
     bnd (deref (vals s) (Some val)) (\<lambda>_.
       release_values rest
         (s\<lparr>vals := (vals s)(val := None), trace := trace s @ [ResetValue val, DeleteValue val]\<rparr>))"

definition ContextFree :: "nat option \<Rightarrow> store \<Rightarrow> fault + store" where
  "ContextFree ctx s =
     (if ctx = None then Inr s
      else
        bnd (deref (ctxs s) ctx) (\<lambda>x.
        bnd (release_values (ctx_vals x) (s\<lparr>trace := trace s @ [ResetContext (the ctx)]\<rparr>)) (\<lambda>s'.
          Inr (s'\<lparr>ctxs := (ctxs s')(the ctx := None),
                  trace := trace s' @ [DeleteContext (the ctx)]\<rparr>))))"

subsection \<open>Disposing an isolate\<close>

definition IsolateDispose :: "nat option \<Rightarrow> store \<Rightarrow> fault + store" where
  "IsolateDispose isolate s =
     (if isolate = None then Inr s
      else
        bnd (isolateInternalContext s (the isolate)) (\<lambda>ctx.
        bnd (ContextFree ctx s) (\<lambda>s'.
        bnd (deref (isos s') isolate) (\<lambda>_.
          Inr (s'\<lparr>isos := (isos s')(the isolate := None),
                  trace := trace s' @ [DisposeIsolate (the isolate)]\<rparr>)))))"

subsection \<open>Heap statistics\<close>

text \<open>
  \<open>HeapStatistics\<close> is the engine's report, with the getters the bridge reads.
  \<open>IsolateHStatistics\<close> is the C struct the bridge returns; its declaration is in the
  header, and the brace initialiser of \<^verbatim>\<open>IsolationGetHeapStatistics\<close> gives its members in
  declaration order. \<open>IsolateHStatistics_members\<close> lists them in that order.
\<close>

type_synonym size_t = "64 word"

record HeapStatistics =
  hs_total_heap_size :: size_t
  hs_total_heap_size_executable :: size_t
  hs_total_physical_size :: size_t
  hs_total_available_size :: size_t
  hs_used_heap_size :: size_t
  hs_heap_size_limit :: size_t
  hs_malloced_memory :: size_t
  hs_external_memory :: size_t
  hs_peak_malloced_memory :: size_t
  hs_number_of_native_contexts :: size_t
  hs_number_of_detached_contexts :: size_t

record IsolateHStatistics =
  total_heap_size :: size_t
  total_heap_size_executable :: size_t
  total_physical_size :: size_t
  total_available_size :: size_t
  used_heap_size :: size_t
  heap_size_limit :: size_t
  malloced_memory :: size_t
  external_memory :: size_t
  peak_malloced_memory :: size_t
  number_of_native_contexts :: size_t
  number_of_detached_contexts :: size_t

definition IsolateHStatistics_members :: "IsolateHStatistics \<Rightarrow> (string \<times> size_t) list" where
  "IsolateHStatistics_members r =
     [(''total_heap_size'', total_heap_size r),
      (''total_heap_size_executable'', total_heap_size_executable r),
      (''total_physical_size'', total_physical_size r),
      (''total_available_size'', total_available_size r),
      (''used_heap_size'', used_heap_size r),
      (''heap_size_limit'', heap_size_limit r),
      (''malloced_memory'', malloced_memory r),
      (''external_memory'', external_memory r),
      (''peak_malloced_memory'', peak_malloced_memory r),
      (''number_of_native_contexts'', number_of_native_contexts r),
      (''number_of_detached_contexts'', number_of_detached_contexts r)]"

definition IsolationGetHeapStatistics ::
  "nat option \<Rightarrow> HeapStatistics \<Rightarrow> store \<Rightarrow> fault + IsolateHStatistics" where
  \<comment> \<open>\<open>hs\<close> is what \<^verbatim>\<open>iso->GetHeapStatistics(&hs)\<close> fills in\<close>
  "IsolationGetHeapStatistics isolate hs s =
     (if isolate = None
      then Inr \<lparr>total_heap_size = 0, total_heap_size_executable = 0, total_physical_size = 0,
                total_available_size = 0, used_heap_size = 0, heap_size_limit = 0,
                malloced_memory = 0, external_memory = 0, peak_malloced_memory = 0,
                number_of_native_contexts = 0, number_of_detached_contexts = 0\<rparr>
      else
        bnd (deref (isos s) isolate) (\<lambda>_.
          Inr \<lparr>total_heap_size = hs_total_heap_size hs,
               total_heap_size_executable = hs_total_heap_size_executable hs,
               total_physical_size = hs_total_physical_size hs,
               total_available_size = hs_total_available_size hs,
               used_heap_size = hs_used_heap_size hs,
               heap_size_limit = hs_heap_size_limit hs,
               malloced_memory = hs_malloced_memory hs,
               external_memory = hs_external_memory hs,
               peak_malloced_memory = hs_peak_malloced_memory hs,
               number_of_native_contexts = hs_number_of_native_contexts hs,
               number_of_detached_contexts = hs_number_of_detached_contexts hs\<rparr>))"

section \<open>Templates\<close>

text \<open>
  A \<^verbatim>\<open>const char*\<close> argument that the code only turns into an engine string appears in
  the model as the \<^verbatim>\<open>MaybeLocal<String>\<close> that \<^verbatim>\<open>String::NewFromUtf8\<close> returned for it.
  \<^verbatim>\<open>Template::Set\<close> adds the property to the engine's template object; what the
  engine itself requires of the value is outside the bridge and is not modelled.
\<close>

definition Template_Set ::
  "nat option \<Rightarrow> v8_value \<Rightarrow> template_data \<Rightarrow> int32 \<Rightarrow> store \<Rightarrow> fault + store" where
  "Template_Set tmpl name data attributes s =
     bnd (nonempty tmpl) (\<lambda>t.
     bnd (deref (engine_templates s) (Some t)) (\<lambda>info.
       Inr (s\<lparr>engine_templates :=
               (engine_templates s)
                 (t \<mapsto> info\<lparr>properties := properties info @ [(name, data, attributes)]\<rparr>)\<rparr>)))"

definition TemplateFreeWrapper :: "nat option \<Rightarrow> store \<Rightarrow> fault + store" where
  "TemplateFreeWrapper tmpl s =
     bnd (deref (tmpls s) tmpl) (\<lambda>_.
       Inr (s\<lparr>tmpls := (tmpls s)(the tmpl := None),
              trace := trace s @ [DeleteTemplate (the tmpl)]\<rparr>))"

definition TemplateSetValue ::
  "nat option \<Rightarrow> v8_value option \<Rightarrow> nat option \<Rightarrow> int32 \<Rightarrow> store \<Rightarrow> fault + store" where
  "TemplateSetValue ptr e_name val attributes s =
     bnd (LOCAL_TEMPLATE s ptr) (\<lambda>(i, tmpl).
     bnd (nonempty e_name) (\<lambda>prop_name.
     bnd (deref (vals s) val) (\<lambda>m.
     bnd (nonempty (val_ptr m)) (\<lambda>v.
       Template_Set tmpl prop_name (DataValue v) attributes s))))"

definition TemplateSetAnyValue ::
  "nat option \<Rightarrow> nat option \<Rightarrow> nat option \<Rightarrow> int32 \<Rightarrow> store \<Rightarrow> fault + (int \<times> store)" where
  "TemplateSetAnyValue ptr key val attributes s =
     bnd (LOCAL_TEMPLATE s ptr) (\<lambda>(i, tmpl).
     bnd (deref (vals s) key) (\<lambda>k.
     bnd (nonempty (val_ptr k)) (\<lambda>local_key.
       if \<not> IsName local_key then Inr (0, s)
       else
         bnd (deref (vals s) val) (\<lambda>m.
         bnd (nonempty (val_ptr m)) (\<lambda>v.
         bnd (Template_Set tmpl local_key (DataValue v) attributes s) (\<lambda>s'.
           Inr (1, s')))))))"

definition TemplateSetTemplate ::
  "nat option \<Rightarrow> v8_value option \<Rightarrow> nat option \<Rightarrow> int32 \<Rightarrow> store \<Rightarrow> fault + store" where
  "TemplateSetTemplate ptr e_name obj attributes s =
     bnd (LOCAL_TEMPLATE s ptr) (\<lambda>(i, tmpl).
     bnd (nonempty e_name) (\<lambda>prop_name.
     bnd (deref (tmpls s) obj) (\<lambda>t.
     bnd (nonempty (tmpl_ptr t)) (\<lambda>o_tmpl.
       Template_Set tmpl prop_name (DataTemplate o_tmpl) attributes s))))"

definition TemplateSetAnyTemplate ::
  "nat option \<Rightarrow> nat option \<Rightarrow> nat option \<Rightarrow> int32 \<Rightarrow> store \<Rightarrow> fault + (int \<times> store)" where
  "TemplateSetAnyTemplate ptr key obj attributes s =
     bnd (LOCAL_TEMPLATE s ptr) (\<lambda>(i, tmpl).
     bnd (deref (vals s) key) (\<lambda>k.
     bnd (nonempty (val_ptr k)) (\<lambda>local_key.
       if \<not> IsName local_key then Inr (0, s)
       else
         bnd (deref (tmpls s) obj) (\<lambda>t.
         bnd (nonempty (tmpl_ptr t)) (\<lambda>o_tmpl.
         bnd (Template_Set tmpl local_key (DataTemplate o_tmpl) attributes s) (\<lambda>s'.
           Inr (1, s')))))))"

definition new_m_template :: "nat \<Rightarrow> template_kind \<Rightarrow> store \<Rightarrow> nat \<times> store" where
  \<comment> \<open>\<^verbatim>\<open>m_template* ot = new m_template; ot->iso = iso; ot->ptr.Reset(iso, T::New(iso, ...));\<close>\<close>
  "new_m_template isolate k s =
     (let t = next_addr s; ot = Suc (next_addr s)
      in (ot,
          s\<lparr>engine_templates := (engine_templates s)(t \<mapsto> \<lparr>kind = k, properties = []\<rparr>),
            tmpls := (tmpls s)(ot \<mapsto> \<lparr>tmpl_iso = isolate, tmpl_ptr = Some t\<rparr>),
            next_addr := Suc (Suc (next_addr s))\<rparr>))"

definition NewObjectTemplate :: "nat option \<Rightarrow> store \<Rightarrow> fault + (nat \<times> store)" where
  "NewObjectTemplate isolate s =
     bnd (ISOLATE_SCOPE s isolate) (\<lambda>i. Inr (new_m_template i ObjectTemplate s))"

definition NewFunctionTemplate :: "nat option \<Rightarrow> int32 \<Rightarrow> store \<Rightarrow> fault + (nat \<times> store)" where
  "NewFunctionTemplate isolate callback_ref s =
     bnd (ISOLATE_SCOPE s isolate) (\<lambda>i. Inr (new_m_template i (FunctionTemplate callback_ref) s))"

definition ObjectTemplateNewInstance ::
  "nat option \<Rightarrow> nat option \<Rightarrow> v8_value option \<Rightarrow> TryCatch \<Rightarrow> store
     \<Rightarrow> fault + (RtnValue \<times> store)" where
  \<comment> \<open>\<open>e_obj\<close> is the result of \<^verbatim>\<open>obj_tmpl->NewInstance(local_ctx)\<close>\<close>
  "ObjectTemplateNewInstance ptr ctx e_obj try_catch s =
     bnd (LOCAL_TEMPLATE s ptr) (\<lambda>(i, tmpl).
     bnd (deref (ctxs s) ctx) (\<lambda>x.
     bnd (nonempty (ctx_ptr x)) (\<lambda>local_ctx.
     bnd (nonempty tmpl) (\<lambda>obj_tmpl.
       case e_obj of
         None \<Rightarrow> rtn_failed try_catch s
       | Some obj \<Rightarrow> rtn_tracked i ctx (Some obj) s))))"

definition FunctionTemplateGetFunction ::
  "nat option \<Rightarrow> nat option \<Rightarrow> v8_value option \<Rightarrow> TryCatch \<Rightarrow> store
     \<Rightarrow> fault + (RtnValue \<times> store)" where
  \<comment> \<open>\<open>e_fn\<close> is the result of \<^verbatim>\<open>fn_tmpl->GetFunction(local_ctx)\<close>\<close>
  "FunctionTemplateGetFunction ptr ctx e_fn try_catch s =
     bnd (LOCAL_TEMPLATE s ptr) (\<lambda>(i, tmpl).
     bnd (deref (ctxs s) ctx) (\<lambda>x.
     bnd (nonempty (ctx_ptr x)) (\<lambda>local_ctx.
     bnd (nonempty tmpl) (\<lambda>fn_tmpl.
       case e_fn of
         None \<Rightarrow> rtn_failed try_catch s
       | Some fn \<Rightarrow> rtn_tracked i ctx (Some fn) s))))"

section \<open>Context\<close>

text \<open>
  Engine calls that may fail appear as their outcome: an \<open>e_...\<close> argument is the
  \<^verbatim>\<open>MaybeLocal\<close> the engine returned in this call, and \<open>try_catch\<close> is the state of the
  \<^verbatim>\<open>TryCatch\<close> at the moment the Error Translator reads it. Host callbacks that the
  engine makes while it runs are calls of \<open>FunctionTemplateCallback\<close> of their own.
\<close>

definition NewContext ::
  "nat option \<Rightarrow> nat option \<Rightarrow> int32 \<Rightarrow> v8_value \<Rightarrow> store \<Rightarrow> fault + (nat \<times> store)" where
  \<comment> \<open>\<open>e_global\<close> is the global object of the context \<^verbatim>\<open>Context::New\<close> made\<close>
  "NewContext isolate global_template_ptr ref e_global s =
     bnd (ISOLATE_SCOPE s isolate) (\<lambda>i.
     bnd (if global_template_ptr \<noteq> None
          then bnd (deref (tmpls s) global_template_ptr) (\<lambda>t. Inr (tmpl_ptr t))
          else Inr None) (\<lambda>global_template.
       let local_ctx = \<lparr>EmbedderData1 = Some ref, Global = e_global\<rparr>;
           ctx = next_addr s
       in Inr (ctx,
               s\<lparr>ctxs := (ctxs s)(ctx \<mapsto> \<lparr>ctx_iso = i, ctx_vals = [], ctx_ptr = Some local_ctx\<rparr>),
                 next_addr := Suc (next_addr s)\<rparr>)))"

definition RunScript ::
  "nat option \<Rightarrow> v8_value option \<Rightarrow> v8_value option \<Rightarrow> nat option \<Rightarrow> v8_value option
     \<Rightarrow> TryCatch \<Rightarrow> store \<Rightarrow> fault + (RtnValue \<times> store)" where
  \<comment> \<open>\<open>e_src\<close>, \<open>e_ogn\<close>: the two engine strings; \<open>e_script\<close>: \<^verbatim>\<open>Script::Compile\<close>;
      \<open>e_result\<close>: \<^verbatim>\<open>script->Run\<close>\<close>
  "RunScript ctx e_src e_ogn e_script e_result try_catch s =
     bnd (LOCAL_CONTEXT s ctx) (\<lambda>(i, local_ctx).
       if e_src = None \<or> e_ogn = None then rtn_failed try_catch s
       else if e_script = None then rtn_failed try_catch s
       else case e_result of
              None \<Rightarrow> rtn_failed try_catch s
            | Some result \<Rightarrow> rtn_tracked i ctx (Some result) s)"

definition JSONParse ::
  "nat option \<Rightarrow> v8_value option \<Rightarrow> v8_value option \<Rightarrow> TryCatch \<Rightarrow> store
     \<Rightarrow> fault + (RtnValue \<times> store)" where
  \<comment> \<open>a failed \<open>e_v8Str\<close> sets the error and goes on to \<^verbatim>\<open>JSON::Parse\<close>, as the source does\<close>
  "JSONParse ctx e_v8Str e_result try_catch s =
     bnd (LOCAL_CONTEXT s ctx) (\<lambda>(i, local_ctx).
       let err = (if e_v8Str = None then ExceptionError try_catch else no_error)
       in case e_result of
            None \<Rightarrow> rtn_failed try_catch s
          | Some result \<Rightarrow>
              bnd (new_tracked_value i ctx (Some result) s) (\<lambda>(val, s').
                Inr (\<lparr>rtn_value = Some val, rtn_error = err\<rparr>, s')))"

definition JSONStringify ::
  "nat option \<Rightarrow> nat option \<Rightarrow> (v8_context \<Rightarrow> v8_value \<Rightarrow> string option) \<Rightarrow> store
     \<Rightarrow> fault + string option" where
  \<comment> \<open>\<open>JSON_Stringify\<close> is the engine's \<^verbatim>\<open>JSON::Stringify\<close>: the text, or \<open>None\<close> when it fails\<close>
  "JSONStringify ctx val JSON_Stringify s =
     bnd (if ctx \<noteq> None then bnd (deref (ctxs s) ctx) (\<lambda>x. Inr (ctx_iso x))
          else bnd (deref (vals s) val) (\<lambda>m. Inr (val_iso m))) (\<lambda>isolate.
     bnd (ISOLATE_SCOPE s (Some isolate)) (\<lambda>i.
     bnd (if ctx \<noteq> None then bnd (deref (ctxs s) ctx) (\<lambda>x. Inr (ctx_ptr x))
          else
            bnd (deref (vals s) val) (\<lambda>m.
              if val_ctx m \<noteq> None
              then bnd (deref (ctxs s) (val_ctx m)) (\<lambda>x. Inr (ctx_ptr x))
              else
                bnd (isolateInternalContext s i) (\<lambda>ctx'.
                bnd (deref (ctxs s) ctx') (\<lambda>x. Inr (ctx_ptr x))))) (\<lambda>h.
     bnd (nonempty h) (\<lambda>local_ctx.
     bnd (deref (vals s) val) (\<lambda>m.
     bnd (nonempty (val_ptr m)) (\<lambda>v.
       case JSON_Stringify local_ctx v of
         None \<Rightarrow> Inr None
       | Some str \<Rightarrow> Inr (CopyString_utf8 (Some str))))))))"

definition ContextGlobal :: "nat option \<Rightarrow> store \<Rightarrow> fault + (nat \<times> store)" where
  "ContextGlobal ctx s =
     bnd (LOCAL_CONTEXT s ctx) (\<lambda>(i, local_ctx).
       new_tracked_value i ctx (Some (Global local_ctx)) s)"

section \<open>Value constructors\<close>

definition NewValueInteger :: "nat option \<Rightarrow> int32 \<Rightarrow> store \<Rightarrow> fault + (nat \<times> store)" where
  "NewValueInteger isolate v s =
     bnd (ISOLATE_SCOPE_INTERNAL_CONTEXT s isolate) (\<lambda>(i, ctx).
       new_tracked_value i ctx (Some (Integer (sint v))) s)"

definition NewValueIntegerFromUnsigned ::
  "nat option \<Rightarrow> 32 word \<Rightarrow> store \<Rightarrow> fault + (nat \<times> store)" where
  "NewValueIntegerFromUnsigned isolate v s =
     bnd (ISOLATE_SCOPE_INTERNAL_CONTEXT s isolate) (\<lambda>(i, ctx).
       new_tracked_value i ctx (Some (Integer (uint v))) s)"

definition NewValueString ::
  "nat option \<Rightarrow> v8_value option \<Rightarrow> TryCatch \<Rightarrow> store \<Rightarrow> fault + (RtnValue \<times> store)" where
  "NewValueString isolate e_str try_catch s =
     bnd (ISOLATE_SCOPE_INTERNAL_CONTEXT s isolate) (\<lambda>(i, ctx).
       case e_str of
         None \<Rightarrow> bnd (deref (ctxs s) ctx) (\<lambda>_. rtn_failed try_catch s)
       | Some str \<Rightarrow> rtn_tracked i ctx (Some str) s)"

definition NewValueNull :: "nat option \<Rightarrow> store \<Rightarrow> fault + (nat \<times> store)" where
  "NewValueNull isolate s =
     bnd (ISOLATE_SCOPE_INTERNAL_CONTEXT s isolate) (\<lambda>(i, ctx).
       new_tracked_value i ctx (Some Null) s)"

definition NewValueUndefined :: "nat option \<Rightarrow> store \<Rightarrow> fault + (nat \<times> store)" where
  "NewValueUndefined isolate s =
     bnd (ISOLATE_SCOPE_INTERNAL_CONTEXT s isolate) (\<lambda>(i, ctx).
       new_tracked_value i ctx (Some Undefined) s)"

definition NewValueBoolean :: "nat option \<Rightarrow> int32 \<Rightarrow> store \<Rightarrow> fault + (nat \<times> store)" where
  "NewValueBoolean isolate v s =
     bnd (ISOLATE_SCOPE_INTERNAL_CONTEXT s isolate) (\<lambda>(i, ctx).
       new_tracked_value i ctx (Some (Boolean (v \<noteq> 0))) s)"

definition NewValueNumber :: "nat option \<Rightarrow> 64 word \<Rightarrow> store \<Rightarrow> fault + (nat \<times> store)" where
  \<comment> \<open>the \<^verbatim>\<open>double\<close> is carried as its 64 bits\<close>
  "NewValueNumber isolate v s =
     bnd (ISOLATE_SCOPE_INTERNAL_CONTEXT s isolate) (\<lambda>(i, ctx).
       new_tracked_value i ctx (Some (Number v)) s)"

definition NewValueBigInt :: "nat option \<Rightarrow> 64 word \<Rightarrow> store \<Rightarrow> fault + (nat \<times> store)" where
  "NewValueBigInt isolate v s =
     bnd (ISOLATE_SCOPE_INTERNAL_CONTEXT s isolate) (\<lambda>(i, ctx).
       new_tracked_value i ctx (Some (BigInt (sint v))) s)"

definition NewValueBigIntFromUnsigned ::
  "nat option \<Rightarrow> 64 word \<Rightarrow> store \<Rightarrow> fault + (nat \<times> store)" where
  "NewValueBigIntFromUnsigned isolate v s =
     bnd (ISOLATE_SCOPE_INTERNAL_CONTEXT s isolate) (\<lambda>(i, ctx).
       new_tracked_value i ctx (Some (BigInt (uint v))) s)"

definition NewValueBigIntFromWords ::
  "nat option \<Rightarrow> v8_value option \<Rightarrow> TryCatch \<Rightarrow> store \<Rightarrow> fault + (RtnValue \<times> store)" where
  \<comment> \<open>\<open>e_bigint\<close> is the result of \<^verbatim>\<open>BigInt::NewFromWords\<close> on the sign, count and words\<close>
  "NewValueBigIntFromWords isolate e_bigint try_catch s =
     bnd (ISOLATE_SCOPE_INTERNAL_CONTEXT s isolate) (\<lambda>(i, ctx).
     bnd (deref (ctxs s) ctx) (\<lambda>x.
     bnd (nonempty (ctx_ptr x)) (\<lambda>local_ctx.
       case e_bigint of
         None \<Rightarrow> rtn_failed try_catch s
       | Some bigint \<Rightarrow> rtn_tracked i ctx (Some bigint) s)))"

definition error_switch :: "(ErrorType \<Rightarrow> int32) \<Rightarrow> int32 \<Rightarrow> v8_value \<Rightarrow> v8_value option" where
  \<comment> \<open>the \<^verbatim>\<open>switch (idx)\<close> of \<^verbatim>\<open>NewValueError\<close>, case labels in source order;
      \<open>None\<close> is the \<^verbatim>\<open>default\<close> branch\<close>
  "error_switch E idx local_msg =
     (if idx = E ERROR_RANGE then Some (NativeError ERROR_RANGE local_msg)
      else if idx = E ERROR_REFERENCE then Some (NativeError ERROR_REFERENCE local_msg)
      else if idx = E ERROR_SYNTAX then Some (NativeError ERROR_SYNTAX local_msg)
      else if idx = E ERROR_TYPE then Some (NativeError ERROR_TYPE local_msg)
      else if idx = E ERROR_WASM_COMPILE then Some (NativeError ERROR_WASM_COMPILE local_msg)
      else if idx = E ERROR_WASM_LINK then Some (NativeError ERROR_WASM_LINK local_msg)
      else if idx = E ERROR_WASM_RUNTIME then Some (NativeError ERROR_WASM_RUNTIME local_msg)
      else if idx = E ERROR_GENERIC then Some (NativeError ERROR_GENERIC local_msg)
      else None)"

definition NewValueError ::
  "(ErrorType \<Rightarrow> int32) \<Rightarrow> nat option \<Rightarrow> int32 \<Rightarrow> v8_value option \<Rightarrow> store
     \<Rightarrow> fault + (nat option \<times> store)" where
  \<comment> \<open>\<open>e_msg\<close> is the engine string made of \<^verbatim>\<open>message\<close>, taken with \<^verbatim>\<open>ToLocalChecked\<close>\<close>
  "NewValueError E isolate idx e_msg s =
     bnd (ISOLATE_SCOPE_INTERNAL_CONTEXT s isolate) (\<lambda>(i, ctx).
     bnd (deref (ctxs s) ctx) (\<lambda>x.
     bnd (nonempty (ctx_ptr x)) (\<lambda>local_ctx.
     bnd (nonempty e_msg) (\<lambda>local_msg.
       case error_switch E idx local_msg of
         None \<Rightarrow> Inr (None, s)
       | Some v \<Rightarrow>
           bnd (new_tracked_value i ctx (Some v) s) (\<lambda>(val, s'). Inr (Some val, s'))))))"

section \<open>Operations on values\<close>

definition ValueToObject ::
  "nat option \<Rightarrow> v8_value option \<Rightarrow> TryCatch \<Rightarrow> store \<Rightarrow> fault + (RtnValue \<times> store)" where
  "ValueToObject ptr e_obj try_catch s =
     bnd (LOCAL_VALUE s ptr) (\<lambda>(i, ctx, local_ctx, value).
     bnd (nonempty value) (\<lambda>v.
       case e_obj of
         None \<Rightarrow> rtn_failed try_catch s
       | Some obj \<Rightarrow> rtn_tracked i ctx (Some obj) s))"

definition ObjectGet ::
  "nat option \<Rightarrow> v8_value option \<Rightarrow> v8_value option \<Rightarrow> TryCatch \<Rightarrow> store
     \<Rightarrow> fault + (RtnValue \<times> store)" where
  "ObjectGet ptr e_key_val e_result try_catch s =
     bnd (LOCAL_VALUE s ptr) (\<lambda>(i, ctx, local_ctx, value).
       case e_key_val of
         None \<Rightarrow> rtn_failed try_catch s
       | Some key_val \<Rightarrow>
           bnd (nonempty value) (\<lambda>obj.
             case e_result of
               None \<Rightarrow> rtn_failed try_catch s
             | Some result \<Rightarrow> rtn_tracked i ctx (Some result) s))"

definition ObjectGetAnyKey ::
  "nat option \<Rightarrow> nat option \<Rightarrow> v8_value option \<Rightarrow> TryCatch \<Rightarrow> store
     \<Rightarrow> fault + (RtnValue \<times> store)" where
  "ObjectGetAnyKey ptr key e_result try_catch s =
     bnd (LOCAL_VALUE s ptr) (\<lambda>(i, ctx, local_ctx, value).
     bnd (deref (vals s) key) (\<lambda>k.
     bnd (nonempty value) (\<lambda>obj.
     bnd (nonempty (val_ptr k)) (\<lambda>local_key.
       case e_result of
         None \<Rightarrow> rtn_failed try_catch s
       | Some result \<Rightarrow> rtn_tracked i ctx (Some result) s))))"

definition ObjectGetIdx ::
  "nat option \<Rightarrow> 32 word \<Rightarrow> v8_value option \<Rightarrow> TryCatch \<Rightarrow> store
     \<Rightarrow> fault + (RtnValue \<times> store)" where
  "ObjectGetIdx ptr idx e_result try_catch s =
     bnd (LOCAL_VALUE s ptr) (\<lambda>(i, ctx, local_ctx, value).
     bnd (nonempty value) (\<lambda>obj.
       case e_result of
         None \<Rightarrow> rtn_failed try_catch s
       | Some result \<Rightarrow> rtn_tracked i ctx (Some result) s))"

definition symbol_switch :: "(SymbolName \<Rightarrow> int32) \<Rightarrow> int32 \<Rightarrow> v8_value option" where
  \<comment> \<open>the \<^verbatim>\<open>switch (idx)\<close> of \<^verbatim>\<open>BuiltinSymbol\<close>\<close>
  "symbol_switch E idx =
     (if idx = E SYMBOL_ASYNC_ITERATOR then Some (WellKnownSymbol SYMBOL_ASYNC_ITERATOR)
      else if idx = E SYMBOL_HAS_INSTANCE then Some (WellKnownSymbol SYMBOL_HAS_INSTANCE)
      else if idx = E SYMBOL_IS_CONCAT_SPREADABLE
        then Some (WellKnownSymbol SYMBOL_IS_CONCAT_SPREADABLE)
      else if idx = E SYMBOL_ITERATOR then Some (WellKnownSymbol SYMBOL_ITERATOR)
      else if idx = E SYMBOL_MATCH then Some (WellKnownSymbol SYMBOL_MATCH)
      else if idx = E SYMBOL_REPLACE then Some (WellKnownSymbol SYMBOL_REPLACE)
      else if idx = E SYMBOL_SEARCH then Some (WellKnownSymbol SYMBOL_SEARCH)
      else if idx = E SYMBOL_SPLIT then Some (WellKnownSymbol SYMBOL_SPLIT)
      else if idx = E SYMBOL_TO_PRIMITIVE then Some (WellKnownSymbol SYMBOL_TO_PRIMITIVE)
      else if idx = E SYMBOL_TO_STRING_TAG then Some (WellKnownSymbol SYMBOL_TO_STRING_TAG)
      else if idx = E SYMBOL_UNSCOPABLES then Some (WellKnownSymbol SYMBOL_UNSCOPABLES)
      else None)"

definition BuiltinSymbol ::
  "(SymbolName \<Rightarrow> int32) \<Rightarrow> nat option \<Rightarrow> int32 \<Rightarrow> store \<Rightarrow> fault + (nat option \<times> store)" where
  "BuiltinSymbol E isolate idx s =
     bnd (ISOLATE_SCOPE_INTERNAL_CONTEXT s isolate) (\<lambda>(i, ctx).
       case symbol_switch E idx of
         None \<Rightarrow> Inr (None, s)
       | Some symb \<Rightarrow>
           bnd (new_tracked_value i ctx (Some symb) s) (\<lambda>(val, s'). Inr (Some val, s')))"

section \<open>Promises\<close>

definition NewPromiseResolver ::
  "nat option \<Rightarrow> v8_value option \<Rightarrow> TryCatch \<Rightarrow> store \<Rightarrow> fault + (RtnValue \<times> store)" where
  "NewPromiseResolver ctx e_resolver try_catch s =
     bnd (LOCAL_CONTEXT s ctx) (\<lambda>(i, local_ctx).
       case e_resolver of
         None \<Rightarrow> rtn_failed try_catch s
       | Some resolver \<Rightarrow> rtn_tracked i ctx (Some resolver) s)"

definition PromiseResolverGetPromise ::
  "nat option \<Rightarrow> v8_value option \<Rightarrow> store \<Rightarrow> fault + (nat \<times> store)" where
  "PromiseResolverGetPromise ptr e_promise s =
     bnd (LOCAL_VALUE s ptr) (\<lambda>(i, ctx, local_ctx, value).
     bnd (nonempty value) (\<lambda>resolver.
       new_tracked_value i ctx e_promise s))"

definition PromiseThen ::
  "nat option \<Rightarrow> int32 \<Rightarrow> v8_value option \<Rightarrow> v8_value option \<Rightarrow> TryCatch \<Rightarrow> store
     \<Rightarrow> fault + (RtnValue \<times> store)" where
  \<comment> \<open>\<open>e_func\<close>: \<^verbatim>\<open>Function::New\<close> on the callback and its reference; \<open>e_result\<close>: \<^verbatim>\<open>Then\<close>\<close>
  "PromiseThen ptr callback_ref e_func e_result try_catch s =
     bnd (LOCAL_VALUE s ptr) (\<lambda>(i, ctx, local_ctx, value).
       case e_func of
         None \<Rightarrow> rtn_failed try_catch s
       | Some func \<Rightarrow>
           bnd (nonempty value) (\<lambda>promise.
             case e_result of
               None \<Rightarrow> rtn_failed try_catch s
             | Some result \<Rightarrow> rtn_tracked i ctx (Some result) s))"

definition PromiseThen2 ::
  "nat option \<Rightarrow> int32 \<Rightarrow> int32 \<Rightarrow> v8_value option \<Rightarrow> v8_value option \<Rightarrow> v8_value option
     \<Rightarrow> TryCatch \<Rightarrow> store \<Rightarrow> fault + (RtnValue \<times> store)" where
  "PromiseThen2 ptr on_fulfilled_ref on_rejected_ref e_onFulfilled e_onRejected e_result
     try_catch s =
     bnd (LOCAL_VALUE s ptr) (\<lambda>(i, ctx, local_ctx, value).
       case e_onFulfilled of
         None \<Rightarrow> rtn_failed try_catch s
       | Some onFulfilledFunc \<Rightarrow>
           (case e_onRejected of
              None \<Rightarrow> rtn_failed try_catch s
            | Some onRejectedFunc \<Rightarrow>
                bnd (nonempty value) (\<lambda>promise.
                  case e_result of
                    None \<Rightarrow> rtn_failed try_catch s
                  | Some result \<Rightarrow> rtn_tracked i ctx (Some result) s)))"

definition PromiseCatch ::
  "nat option \<Rightarrow> int32 \<Rightarrow> v8_value option \<Rightarrow> v8_value option \<Rightarrow> TryCatch \<Rightarrow> store
     \<Rightarrow> fault + (RtnValue \<times> store)" where
  "PromiseCatch ptr callback_ref e_func e_result try_catch s =
     bnd (LOCAL_VALUE s ptr) (\<lambda>(i, ctx, local_ctx, value).
       case e_func of
         None \<Rightarrow> rtn_failed try_catch s
       | Some func \<Rightarrow>
           bnd (nonempty value) (\<lambda>promise.
             case e_result of
               None \<Rightarrow> rtn_failed try_catch s
             | Some result \<Rightarrow> rtn_tracked i ctx (Some result) s))"

definition PromiseResult ::
  "nat option \<Rightarrow> v8_value option \<Rightarrow> store \<Rightarrow> fault + (nat \<times> store)" where
  "PromiseResult ptr e_result s =
     bnd (LOCAL_VALUE s ptr) (\<lambda>(i, ctx, local_ctx, value).
     bnd (nonempty value) (\<lambda>promise.
       new_tracked_value i ctx e_result s))"

section \<open>Functions\<close>

fun buildCallArguments :: "store \<Rightarrow> nat option list \<Rightarrow> fault + v8_value option list" where
  \<comment> \<open>\<^verbatim>\<open>argv[i] = args[i]->ptr.Get(iso)\<close> for the \<^verbatim>\<open>argc\<close> entries of \<^verbatim>\<open>args\<close>\<close>
  "buildCallArguments s [] = Inr []"
| "buildCallArguments s (a # args) =
     bnd (deref (vals s) a) (\<lambda>m.
     bnd (buildCallArguments s args) (\<lambda>argv. Inr (val_ptr m # argv)))"

definition FunctionCall ::
  "nat option \<Rightarrow> nat option \<Rightarrow> nat option list \<Rightarrow> v8_value option \<Rightarrow> TryCatch \<Rightarrow> store
     \<Rightarrow> fault + (RtnValue \<times> store)" where
  "FunctionCall ptr recv args e_result try_catch s =
     bnd (LOCAL_VALUE s ptr) (\<lambda>(i, ctx, local_ctx, value).
     bnd (buildCallArguments s args) (\<lambda>argv.
     bnd (deref (vals s) recv) (\<lambda>r.
     bnd (nonempty value) (\<lambda>fn.
       case e_result of
         None \<Rightarrow> rtn_failed try_catch s
       | Some result \<Rightarrow> rtn_tracked i ctx (Some result) s))))"

definition FunctionNewInstance ::
  "nat option \<Rightarrow> nat option list \<Rightarrow> v8_value option \<Rightarrow> TryCatch \<Rightarrow> store
     \<Rightarrow> fault + (RtnValue \<times> store)" where
  "FunctionNewInstance ptr args e_result try_catch s =
     bnd (LOCAL_VALUE s ptr) (\<lambda>(i, ctx, local_ctx, value).
     bnd (buildCallArguments s args) (\<lambda>argv.
     bnd (nonempty value) (\<lambda>fn.
       case e_result of
         None \<Rightarrow> rtn_failed try_catch s
       | Some result \<Rightarrow> rtn_tracked i ctx (Some result) s)))"

definition FunctionSourceMapUrl ::
  "nat option \<Rightarrow> v8_value option \<Rightarrow> store \<Rightarrow> fault + (nat \<times> store)" where
  "FunctionSourceMapUrl ptr e_result s =
     bnd (LOCAL_VALUE s ptr) (\<lambda>(i, ctx, local_ctx, value).
     bnd (nonempty value) (\<lambda>fn.
       new_tracked_value i ctx e_result s))"

section \<open>Callback Bridge\<close>

text \<open>
  What the engine hands to a native callback: the isolate, the context that is
  executing, the data stored with the function (the callback reference), the receiver
  and the arguments. \<open>goContext\<close> and \<open>goFunctionCallback\<close> are the host's exported
  functions: the first finds the sandbox of a reference (null when there is none), the
  second runs the registered host function, which may itself call into the bridge and so
  returns a store as well.
\<close>

record FunctionCallbackInfo =
  GetIsolate :: nat
  GetCurrentContext :: v8_context
  Data :: int32
  This :: v8_value
  Arguments :: "v8_value list"

fun wrap_arguments ::
  "nat \<Rightarrow> nat option \<Rightarrow> v8_value list \<Rightarrow> store \<Rightarrow> fault + (nat list \<times> store)" where
  \<comment> \<open>the \<^verbatim>\<open>for\<close> loop over \<^verbatim>\<open>info[i]\<close>\<close>
  "wrap_arguments isolate ctx [] s = Inr ([], s)"
| "wrap_arguments isolate ctx (a # rest) s =
     bnd (new_tracked_value isolate ctx (Some a) s) (\<lambda>(val, s1).
     bnd (wrap_arguments isolate ctx rest s1) (\<lambda>(args, s2). Inr (val # args, s2)))"

definition wrap_this_and_args ::
  "nat \<Rightarrow> nat option \<Rightarrow> FunctionCallbackInfo \<Rightarrow> store \<Rightarrow> fault + (nat list \<times> store)" where
  \<comment> \<open>fills \<^verbatim>\<open>thisAndArgs\<close>: the receiver first, then the arguments\<close>
  "wrap_this_and_args isolate ctx info s =
     bnd (new_tracked_value isolate ctx (Some (This info)) s) (\<lambda>(this, s1).
     bnd (wrap_arguments isolate ctx (Arguments info) s1) (\<lambda>(args, s2).
       Inr (this # args, s2)))"

definition FunctionTemplateCallback ::
  "(int32 \<Rightarrow> nat option) \<Rightarrow> (int32 \<Rightarrow> int32 \<Rightarrow> nat list \<Rightarrow> int \<Rightarrow> store \<Rightarrow> nat option \<times> store)
     \<Rightarrow> FunctionCallbackInfo \<Rightarrow> store \<Rightarrow> fault + (v8_value option \<times> store)" where
  \<comment> \<open>the result is what \<^verbatim>\<open>info.GetReturnValue()\<close> was set to\<close>
  "FunctionTemplateCallback goContext goFunctionCallback info s =
     bnd (ISOLATE_SCOPE s (Some (GetIsolate info))) (\<lambda>i.
     bnd (nonempty (EmbedderData1 (GetCurrentContext info))) (\<lambda>ctx_ref.
       let ctx = goContext ctx_ref;
           callback_ref = Data info;
           args_count = int (length (Arguments info))
       in bnd (wrap_this_and_args i ctx info s) (\<lambda>(thisAndArgs, s1).
            case goFunctionCallback ctx_ref callback_ref thisAndArgs args_count s1 of
              (val, s2) \<Rightarrow>
                if val \<noteq> None then bnd (deref (vals s2) val) (\<lambda>m. Inr (val_ptr m, s2))
                else Inr (Some Undefined, s2))))"

section \<open>Sandboxes in scope, the registry invariant and runs\<close>

definition default_sandbox :: "store \<Rightarrow> nat option \<Rightarrow> nat option" where
  \<comment> \<open>the internal context of an isolate\<close>
  "default_sandbox s isolate =
     (case isolate of
        None \<Rightarrow> None
      | Some a \<Rightarrow> (case isos s a of None \<Rightarrow> None | Some i \<Rightarrow> GetData0 i))"

definition value_sandbox :: "store \<Rightarrow> nat option \<Rightarrow> nat option" where
  \<comment> \<open>the sandbox an operation on a wrapper works in: the wrapper's own, or the default one\<close>
  "value_sandbox s ptr =
     (case ptr of
        None \<Rightarrow> None
      | Some a \<Rightarrow>
          (case vals s a of
             None \<Rightarrow> None
           | Some m \<Rightarrow> if val_ctx m \<noteq> None then val_ctx m
                       else default_sandbox s (Some (val_iso m))))"

definition registry_of :: "store \<Rightarrow> nat \<Rightarrow> nat list" where
  "registry_of s c = (case ctxs s c of None \<Rightarrow> [] | Some x \<Rightarrow> ctx_vals x)"

definition registered_in :: "store \<Rightarrow> nat \<Rightarrow> nat \<Rightarrow> bool" where
  \<comment> \<open>wrapper \<open>w\<close> is live, is tagged with sandbox \<open>c\<close>, and stands in the registry of \<open>c\<close>
      once and in no other registry\<close>
  "registered_in s w c \<longleftrightarrow>
     (\<exists>m x. vals s w = Some m \<and> val_ctx m = Some c \<and> ctxs s c = Some x
        \<and> count_list (ctx_vals x) w = 1)
     \<and> (\<forall>c' x'. ctxs s c' = Some x' \<and> w \<in> set (ctx_vals x') \<longrightarrow> c' = c)"

definition registry_inv :: "store \<Rightarrow> bool" where
  \<comment> \<open>every live wrapper is registered in the live sandbox it is tagged with; every registry
      holds live wrappers tagged with its sandbox, each once; live addresses were allocated\<close>
  "registry_inv s \<longleftrightarrow>
     (\<forall>v m. vals s v = Some m \<longrightarrow>
        v < next_addr s
        \<and> (\<exists>c x. val_ctx m = Some c \<and> ctxs s c = Some x \<and> v \<in> set (ctx_vals x)))
     \<and> (\<forall>c x. ctxs s c = Some x \<longrightarrow>
          c < next_addr s \<and> distinct (ctx_vals x)
          \<and> (\<forall>v \<in> set (ctx_vals x). \<exists>m. vals s v = Some m \<and> val_ctx m = Some c))"

inductive tracks :: "store \<Rightarrow> nat option \<Rightarrow> nat list \<Rightarrow> store \<Rightarrow> bool" where
  tracks_Nil: "tracks s ctx [] s"
| tracks_Cons:
    "new_tracked_value isolate ctx x s = Inr (w, s1) \<Longrightarrow> tracks s1 ctx ws s'
     \<Longrightarrow> tracks s ctx (w # ws) s'"

text \<open>
  \<open>creates s w c s'\<close>: an entry point, run in store \<open>s\<close>, returned the new wrapper \<open>w\<close>
  and left store \<open>s'\<close>, and \<open>c\<close> is the sandbox in scope: the context argument, the
  sandbox of the wrapper operated on, the sandbox the Callback Bridge recovered, or,
  for the constructors that take only an isolate, its default sandbox.
\<close>

inductive creates :: "store \<Rightarrow> nat \<Rightarrow> nat \<Rightarrow> store \<Rightarrow> bool" where
  c_ObjectTemplateNewInstance:
    "ObjectTemplateNewInstance ptr (Some c) e_obj tc s = Inr (r, s') \<Longrightarrow> rtn_value r = Some w
     \<Longrightarrow> creates s w c s'"
| c_FunctionTemplateGetFunction:
    "FunctionTemplateGetFunction ptr (Some c) e_fn tc s = Inr (r, s') \<Longrightarrow> rtn_value r = Some w
     \<Longrightarrow> creates s w c s'"
| c_FunctionTemplateCallback:
    "EmbedderData1 (GetCurrentContext info) = Some ctx_ref \<Longrightarrow> goContext ctx_ref = Some c
     \<Longrightarrow> wrap_this_and_args (GetIsolate info) (goContext ctx_ref) info s = Inr (ws, s')
     \<Longrightarrow> w \<in> set ws \<Longrightarrow> creates s w c s'"
| c_RunScript:
    "RunScript (Some c) e_src e_ogn e_script e_result tc s = Inr (r, s')
     \<Longrightarrow> rtn_value r = Some w \<Longrightarrow> creates s w c s'"
| c_JSONParse:
    "JSONParse (Some c) e_str e_result tc s = Inr (r, s') \<Longrightarrow> rtn_value r = Some w
     \<Longrightarrow> creates s w c s'"
| c_ContextGlobal:
    "ContextGlobal (Some c) s = Inr (w, s') \<Longrightarrow> creates s w c s'"
| c_NewPromiseResolver:
    "NewPromiseResolver (Some c) e_resolver tc s = Inr (r, s') \<Longrightarrow> rtn_value r = Some w
     \<Longrightarrow> creates s w c s'"
| c_ValueToObject:
    "ValueToObject ptr e_obj tc s = Inr (r, s') \<Longrightarrow> rtn_value r = Some w
     \<Longrightarrow> value_sandbox s ptr = Some c \<Longrightarrow> creates s w c s'"
| c_ObjectGet:
    "ObjectGet ptr e_key e_result tc s = Inr (r, s') \<Longrightarrow> rtn_value r = Some w
     \<Longrightarrow> value_sandbox s ptr = Some c \<Longrightarrow> creates s w c s'"
| c_ObjectGetAnyKey:
    "ObjectGetAnyKey ptr key e_result tc s = Inr (r, s') \<Longrightarrow> rtn_value r = Some w
     \<Longrightarrow> value_sandbox s ptr = Some c \<Longrightarrow> creates s w c s'"
| c_ObjectGetIdx:
    "ObjectGetIdx ptr idx e_result tc s = Inr (r, s') \<Longrightarrow> rtn_value r = Some w
     \<Longrightarrow> value_sandbox s ptr = Some c \<Longrightarrow> creates s w c s'"
| c_PromiseResolverGetPromise:
    "PromiseResolverGetPromise ptr e_promise s = Inr (w, s')
     \<Longrightarrow> value_sandbox s ptr = Some c \<Longrightarrow> creates s w c s'"
| c_PromiseThen:
    "PromiseThen ptr callback_ref e_func e_result tc s = Inr (r, s') \<Longrightarrow> rtn_value r = Some w
     \<Longrightarrow> value_sandbox s ptr = Some c \<Longrightarrow> creates s w c s'"
| c_PromiseThen2:
    "PromiseThen2 ptr ref1 ref2 e_f1 e_f2 e_result tc s = Inr (r, s') \<Longrightarrow> rtn_value r = Some w
     \<Longrightarrow> value_sandbox s ptr = Some c \<Longrightarrow> creates s w c s'"
| c_PromiseCatch:
    "PromiseCatch ptr callback_ref e_func e_result tc s = Inr (r, s') \<Longrightarrow> rtn_value r = Some w
     \<Longrightarrow> value_sandbox s ptr = Some c \<Longrightarrow> creates s w c s'"
| c_PromiseResult:
    "PromiseResult ptr e_result s = Inr (w, s')
     \<Longrightarrow> value_sandbox s ptr = Some c \<Longrightarrow> creates s w c s'"
| c_FunctionCall:
    "FunctionCall ptr recv args e_result tc s = Inr (r, s') \<Longrightarrow> rtn_value r = Some w
     \<Longrightarrow> value_sandbox s ptr = Some c \<Longrightarrow> creates s w c s'"
| c_FunctionNewInstance:
    "FunctionNewInstance ptr args e_result tc s = Inr (r, s') \<Longrightarrow> rtn_value r = Some w
     \<Longrightarrow> value_sandbox s ptr = Some c \<Longrightarrow> creates s w c s'"
| c_FunctionSourceMapUrl:
    "FunctionSourceMapUrl ptr e_result s = Inr (w, s')
     \<Longrightarrow> value_sandbox s ptr = Some c \<Longrightarrow> creates s w c s'"
| c_NewValueInteger:
    "NewValueInteger isolate v32 s = Inr (w, s')
     \<Longrightarrow> default_sandbox s isolate = Some c \<Longrightarrow> creates s w c s'"
| c_NewValueIntegerFromUnsigned:
    "NewValueIntegerFromUnsigned isolate v32 s = Inr (w, s')
     \<Longrightarrow> default_sandbox s isolate = Some c \<Longrightarrow> creates s w c s'"
| c_NewValueString:
    "NewValueString isolate e_str tc s = Inr (r, s') \<Longrightarrow> rtn_value r = Some w
     \<Longrightarrow> default_sandbox s isolate = Some c \<Longrightarrow> creates s w c s'"
| c_NewValueNull:
    "NewValueNull isolate s = Inr (w, s')
     \<Longrightarrow> default_sandbox s isolate = Some c \<Longrightarrow> creates s w c s'"
| c_NewValueUndefined:
    "NewValueUndefined isolate s = Inr (w, s')
     \<Longrightarrow> default_sandbox s isolate = Some c \<Longrightarrow> creates s w c s'"
| c_NewValueBoolean:
    "NewValueBoolean isolate v32 s = Inr (w, s')
     \<Longrightarrow> default_sandbox s isolate = Some c \<Longrightarrow> creates s w c s'"
| c_NewValueNumber:
    "NewValueNumber isolate v64 s = Inr (w, s')
     \<Longrightarrow> default_sandbox s isolate = Some c \<Longrightarrow> creates s w c s'"
| c_NewValueBigInt:
    "NewValueBigInt isolate v64 s = Inr (w, s')
     \<Longrightarrow> default_sandbox s isolate = Some c \<Longrightarrow> creates s w c s'"
| c_NewValueBigIntFromUnsigned:
    "NewValueBigIntFromUnsigned isolate v64 s = Inr (w, s')
     \<Longrightarrow> default_sandbox s isolate = Some c \<Longrightarrow> creates s w c s'"
| c_NewValueBigIntFromWords:
    "NewValueBigIntFromWords isolate e_bigint tc s = Inr (r, s') \<Longrightarrow> rtn_value r = Some w
     \<Longrightarrow> default_sandbox s isolate = Some c \<Longrightarrow> creates s w c s'"
| c_NewValueError:
    "NewValueError E isolate idx e_msg s = Inr (Some w, s')
     \<Longrightarrow> default_sandbox s isolate = Some c \<Longrightarrow> creates s w c s'"
| c_BuiltinSymbol:
    "BuiltinSymbol E' isolate idx s = Inr (Some w, s')
     \<Longrightarrow> default_sandbox s isolate = Some c \<Longrightarrow> creates s w c s'"

text \<open>
  \<open>api_step s s'\<close>: one entry point of the bridge that writes to the bridge's heap ran to
  its end in store \<open>s\<close> and left \<open>s'\<close>. For the Callback Bridge the step is its wrapping
  of the receiver and the arguments; what the host function then does is further steps.
  The entry points left out (conversions, predicates, object and promise mutators)
  write only to the engine's heap.
\<close>

inductive api_step :: "store \<Rightarrow> store \<Rightarrow> bool" where
  s_NewIsolate: "NewIsolate e_context s = (i, s') \<Longrightarrow> api_step s s'"
| s_IsolateDispose: "IsolateDispose isolate s = Inr s' \<Longrightarrow> api_step s s'"
| s_TemplateFreeWrapper: "TemplateFreeWrapper tmpl s = Inr s' \<Longrightarrow> api_step s s'"
| s_TemplateSetValue: "TemplateSetValue ptr e_name val attrs s = Inr s' \<Longrightarrow> api_step s s'"
| s_TemplateSetAnyValue:
    "TemplateSetAnyValue ptr key val attrs s = Inr (b, s') \<Longrightarrow> api_step s s'"
| s_TemplateSetTemplate:
    "TemplateSetTemplate ptr e_name obj attrs s = Inr s' \<Longrightarrow> api_step s s'"
| s_TemplateSetAnyTemplate:
    "TemplateSetAnyTemplate ptr key obj attrs s = Inr (b, s') \<Longrightarrow> api_step s s'"
| s_NewObjectTemplate: "NewObjectTemplate isolate s = Inr (t, s') \<Longrightarrow> api_step s s'"
| s_NewFunctionTemplate:
    "NewFunctionTemplate isolate callback_ref s = Inr (t, s') \<Longrightarrow> api_step s s'"
| s_ObjectTemplateNewInstance:
    "ObjectTemplateNewInstance ptr ctx e_obj tc s = Inr (r, s') \<Longrightarrow> api_step s s'"
| s_FunctionTemplateGetFunction:
    "FunctionTemplateGetFunction ptr ctx e_fn tc s = Inr (r, s') \<Longrightarrow> api_step s s'"
| s_FunctionTemplateCallback:
    "wrap_this_and_args isolate ctx info s = Inr (ws, s') \<Longrightarrow> api_step s s'"
| s_NewContext:
    "NewContext isolate global_template_ptr ref e_global s = Inr (c, s') \<Longrightarrow> api_step s s'"
| s_ContextFree: "ContextFree ctx s = Inr s' \<Longrightarrow> api_step s s'"
| s_RunScript:
    "RunScript ctx e_src e_ogn e_script e_result tc s = Inr (r, s') \<Longrightarrow> api_step s s'"
| s_JSONParse: "JSONParse ctx e_str e_result tc s = Inr (r, s') \<Longrightarrow> api_step s s'"
| s_ContextGlobal: "ContextGlobal ctx s = Inr (w, s') \<Longrightarrow> api_step s s'"
| s_NewValueInteger: "NewValueInteger isolate v32 s = Inr (w, s') \<Longrightarrow> api_step s s'"
| s_NewValueIntegerFromUnsigned:
    "NewValueIntegerFromUnsigned isolate v32 s = Inr (w, s') \<Longrightarrow> api_step s s'"
| s_NewValueString: "NewValueString isolate e_str tc s = Inr (r, s') \<Longrightarrow> api_step s s'"
| s_NewValueNull: "NewValueNull isolate s = Inr (w, s') \<Longrightarrow> api_step s s'"
| s_NewValueUndefined: "NewValueUndefined isolate s = Inr (w, s') \<Longrightarrow> api_step s s'"
| s_NewValueBoolean: "NewValueBoolean isolate v32 s = Inr (w, s') \<Longrightarrow> api_step s s'"
| s_NewValueNumber: "NewValueNumber isolate v64 s = Inr (w, s') \<Longrightarrow> api_step s s'"
| s_NewValueBigInt: "NewValueBigInt isolate v64 s = Inr (w, s') \<Longrightarrow> api_step s s'"
| s_NewValueBigIntFromUnsigned:
    "NewValueBigIntFromUnsigned isolate v64 s = Inr (w, s') \<Longrightarrow> api_step s s'"
| s_NewValueBigIntFromWords:
    "NewValueBigIntFromWords isolate e_bigint tc s = Inr (r, s') \<Longrightarrow> api_step s s'"
| s_NewValueError: "NewValueError E isolate idx e_msg s = Inr (p, s') \<Longrightarrow> api_step s s'"
| s_ValueToObject: "ValueToObject ptr e_obj tc s = Inr (r, s') \<Longrightarrow> api_step s s'"
| s_ObjectGet: "ObjectGet ptr e_key e_result tc s = Inr (r, s') \<Longrightarrow> api_step s s'"
| s_ObjectGetAnyKey:
    "ObjectGetAnyKey ptr key e_result tc s = Inr (r, s') \<Longrightarrow> api_step s s'"
| s_ObjectGetIdx: "ObjectGetIdx ptr idx e_result tc s = Inr (r, s') \<Longrightarrow> api_step s s'"
| s_BuiltinSymbol: "BuiltinSymbol E' isolate idx s = Inr (p, s') \<Longrightarrow> api_step s s'"
| s_NewPromiseResolver:
    "NewPromiseResolver ctx e_resolver tc s = Inr (r, s') \<Longrightarrow> api_step s s'"
| s_PromiseResolverGetPromise:
    "PromiseResolverGetPromise ptr e_promise s = Inr (w, s') \<Longrightarrow> api_step s s'"
| s_PromiseThen:
    "PromiseThen ptr callback_ref e_func e_result tc s = Inr (r, s') \<Longrightarrow> api_step s s'"
| s_PromiseThen2:
    "PromiseThen2 ptr ref1 ref2 e_f1 e_f2 e_result tc s = Inr (r, s') \<Longrightarrow> api_step s s'"
| s_PromiseCatch:
    "PromiseCatch ptr callback_ref e_func e_result tc s = Inr (r, s') \<Longrightarrow> api_step s s'"
| s_PromiseResult: "PromiseResult ptr e_result s = Inr (w, s') \<Longrightarrow> api_step s s'"
| s_FunctionCall:
    "FunctionCall ptr recv args e_result tc s = Inr (r, s') \<Longrightarrow> api_step s s'"
| s_FunctionNewInstance:
    "FunctionNewInstance ptr args e_result tc s = Inr (r, s') \<Longrightarrow> api_step s s'"
| s_FunctionSourceMapUrl:
    "FunctionSourceMapUrl ptr e_result s = Inr (w, s') \<Longrightarrow> api_step s s'"

definition released_values :: "nat list \<Rightarrow> event list" where
  \<comment> \<open>the releases of a registry, wrapper by wrapper, in registration order\<close>
  "released_values vs = concat (map (\<lambda>v. [ResetValue v, DeleteValue v]) vs)"

definition empty_store :: store where
  "empty_store =
     \<lparr>isos = Map.empty, ctxs = Map.empty, vals = Map.empty, tmpls = Map.empty,
      engine_templates = Map.empty, next_addr = 0, trace = []\<rparr>"

section \<open>Example states\<close>

text \<open>
  A small store used to run the operations on concrete inputs: isolate 0 with its
  internal context 1, two wrappers 4 and 5 registered there (an integer and a string),
  and an object template 3. \<open>example_error_index\<close> is a sample numbering of the error
  types, from 1.
\<close>

definition example_store :: store where
  "example_store =
     \<lparr>isos = [0 \<mapsto> \<lparr>GetData0 = Some 1\<rparr>],
      ctxs = [1 \<mapsto> \<lparr>ctx_iso = 0, ctx_vals = [4, 5],
                    ctx_ptr = Some \<lparr>EmbedderData1 = None, Global = Object 0\<rparr>\<rparr>],
      vals = [4 \<mapsto> \<lparr>val_iso = 0, val_ctx = Some 1, val_ptr = Some (Integer 7)\<rparr>,
              5 \<mapsto> \<lparr>val_iso = 0, val_ctx = Some 1, val_ptr = Some (String ''k'')\<rparr>],
      tmpls = [3 \<mapsto> \<lparr>tmpl_iso = 0, tmpl_ptr = Some 2\<rparr>],
      engine_templates = [2 \<mapsto> \<lparr>kind = ObjectTemplate, properties = []\<rparr>],
      next_addr = 6, trace = []\<rparr>"

definition example_error_index :: "ErrorType \<Rightarrow> int32" where
  "example_error_index k =
     (case k of
        ERROR_RANGE \<Rightarrow> 1 | ERROR_REFERENCE \<Rightarrow> 2 | ERROR_SYNTAX \<Rightarrow> 3 | ERROR_TYPE \<Rightarrow> 4
      | ERROR_WASM_COMPILE \<Rightarrow> 5 | ERROR_WASM_LINK \<Rightarrow> 6 | ERROR_WASM_RUNTIME \<Rightarrow> 7
      | ERROR_GENERIC \<Rightarrow> 8)"

section \<open>Properties of the Error Translator\<close>

lemma c_str_no_NUL: "NUL \<notin> set s \<Longrightarrow> c_str s = s"
  by (auto simp: c_str_def takeWhile_eq_all_conv)

lemma NUL_notin_c_str: "NUL \<notin> set (c_str s)"
  by (auto simp: c_str_def dest: set_takeWhileD)

lemma c_str_idem: "c_str (c_str s) = c_str s"
  by (simp add: c_str_no_NUL NUL_notin_c_str)

lemma digit_neq_NUL: "d < 10 \<Longrightarrow> digit d \<noteq> NUL"
  by (simp add: digit_def NUL_def char_of_eq_iff take_bit_eq_mod)

lemma digit_not_NUL: "d < 10 \<Longrightarrow> NUL \<noteq> digit d"
  using digit_neq_NUL [of d] by auto

lemma sint_succ: 
  fixes c :: "32 word"
  assumes "sint c < 2 ^ 31 - 1" 
  shows "sint (c + 1) = sint c + 1"
proof -
  have lo: "- (2 ^ 31) \<le> sint c" using sint_ge [of c] by simp
  have "sint (c + 1) = signed_take_bit 31 (sint c + 1)"
    by (simp add: sint_word_ariths)
  also have "\<dots> = sint c + 1"
    using lo assms by (intro signed_take_bit_int_eq_self) simp_all
  finally show ?thesis .
qed

lemma NUL_notin_show_nat: "NUL \<notin> set (show_nat n)"
proof (induction n rule: show_nat.induct)
  case (1 n)
  show ?case
  proof (cases "n < 10")
    case True
    then show ?thesis by (subst show_nat.simps) (simp add: digit_not_NUL)
  next
    case False
    with 1 show ?thesis by (subst show_nat.simps) (simp add: digit_not_NUL)
  qed
qed

lemma NUL_notin_show_int: "NUL \<notin> set (show_int i)"
  by (simp add: show_int_def NUL_notin_show_nat) (simp add: NUL_def)

lemma location_string_no_NUL: "NUL \<notin> set (location_string m)"
  by (auto simp: location_string_def Let_def NUL_notin_c_str NUL_notin_show_int
      split: option.splits) (simp_all add: NUL_def)

text \<open>
  Claim C5. When execution was forcibly terminated the Error Translator returns the
  fixed termination message with no location and no stack, whatever the exception value
  is (it is not read); otherwise the message is the copy of the thrown exception's
  text, which \<^verbatim>\<open>CopyString\<close> makes null when that text is empty.
\<close>

theorem C5_termination_short_circuit:
  "(HasTerminated tc \<longrightarrow>
      (\<forall>e. ExceptionError (tc\<lparr>Exception := e\<rparr>) =
         \<lparr>msg = Some ''ExecutionTerminated: script execution has been terminated'',
          location = None, stack = None\<rparr>))
   \<and> (\<not> HasTerminated tc \<longrightarrow>
        msg (ExceptionError tc) =
          (case Exception tc of
             None \<Rightarrow> None
           | Some s \<Rightarrow> if s = [] then None else Some (c_str s)))"
  by (auto simp: ExceptionError_def Let_def CopyString_def CopyString_utf8_def utf8_length_def
      c_str_idem terminated_message_def c_str_def NUL_def split: option.splits)

theorem C5_termination_short_circuit_witness:
  "ExceptionError
      \<lparr>HasTerminated = True, Exception = Some ''Error: x'', Message = None, StackTrace = None\<rparr>
     = \<lparr>msg = Some ''ExecutionTerminated: script execution has been terminated'',
        location = None, stack = None\<rparr>
   \<and> msg (ExceptionError
      \<lparr>HasTerminated = False, Exception = Some ''Error: x'', Message = None, StackTrace = None\<rparr>)
     = Some ''Error: x''"
  using C5_termination_short_circuit [of
      "\<lparr>HasTerminated = True, Exception = Some ''Error: x'', Message = None, StackTrace = None\<rparr>"]
    C5_termination_short_circuit [of
      "\<lparr>HasTerminated = False, Exception = Some ''Error: x'', Message = None, StackTrace = None\<rparr>"]
  by (simp add: c_str_def NUL_def)

text \<open>
  Claim C6, as the code has it. For an exception that was not a termination, the
  location is absent when the engine supplies no message object; with a message it is
  the origin label, then \<open>:line\<close> if the engine supplies a line number, printed
  exactly as supplied, then \<open>:column\<close> if it supplies a start column, printed as that
  column plus one (a column below \<^verbatim>\<open>INT_MAX\<close>, so that the addition does not
  overflow). The two numbers count from 1 only where the engine supplies a line counted
  from 1 and a column counted from 0, as it does for a position in a script.
\<close>

theorem C6_location_format:
  "\<not> HasTerminated tc \<longrightarrow>
     (Message tc = None \<longrightarrow> location (ExceptionError tc) = None)
     \<and> (\<forall>m. Message tc = Some m
            \<and> (\<forall>c. GetStartColumn m = Some c \<longrightarrow> sint c < 2 ^ 31 - 1) \<longrightarrow>
          location (ExceptionError tc) =
            Some (c_str (ResourceName m)
                  @ (case GetLineNumber m of
                       None \<Rightarrow> ''''
                     | Some line \<Rightarrow> '':'' @ show_int (sint line))
                  @ (case GetStartColumn m of
                       None \<Rightarrow> ''''
                     | Some col \<Rightarrow> '':'' @ show_int (sint col + 1))))"
  by (auto simp: ExceptionError_def Let_def CopyString_def c_str_no_NUL location_string_no_NUL
      split: option.splits)
     (auto simp: location_string_def Let_def sint_succ split: option.splits)

theorem C6_location_format_witness:
  "location (ExceptionError
      \<lparr>HasTerminated = False, Exception = Some ''Error: x'',
       Message = Some \<lparr>ResourceName = ''a.js'', GetLineNumber = Some 3, GetStartColumn = Some 4\<rparr>,
       StackTrace = None\<rparr>) = Some ''a.js:3:5''
   \<and> location (ExceptionError
      \<lparr>HasTerminated = False, Exception = Some ''Error: x'', Message = None,
       StackTrace = None\<rparr>) = None"
  using C6_location_format [of "\<lparr>HasTerminated = False, Exception = Some ''Error: x'',
       Message = Some \<lparr>ResourceName = ''a.js'', GetLineNumber = Some 3, GetStartColumn = Some 4\<rparr>,
       StackTrace = None\<rparr>"]
    C6_location_format [of "\<lparr>HasTerminated = False, Exception = Some ''Error: x'', Message = None,
       StackTrace = None\<rparr>"]
  by (simp add: c_str_def NUL_def show_int_def show_nat.simps digit_def char_of_eq_iff)

text \<open>
  Claim C6 as stated says the line and the column in the location count from 1. For an
  exception that has no position in a script the engine supplies line 0 and start
  column -1 with the origin label \<open>undefined\<close>, and the location reads
  \<open>undefined:0:0\<close>: neither number printed is at least 1.
\<close>

theorem C6_one_based_counterexample:
  "location (ExceptionError
      \<lparr>HasTerminated = False, Exception = Some ''RangeError: x'',
       Message = Some \<lparr>ResourceName = ''undefined'', GetLineNumber = Some 0,
                       GetStartColumn = Some (- 1)\<rparr>,
       StackTrace = None\<rparr>) = Some ''undefined:0:0''
   \<and> \<not> 1 \<le> sint (0 :: int32) \<and> \<not> 1 \<le> sint ((- 1 :: int32) + 1)"
  by (simp add: ExceptionError_def Let_def CopyString_def location_string_def c_str_def NUL_def
      show_int_def show_nat.simps digit_def char_of_eq_iff)

section \<open>Heap statistics\<close>

text \<open>
  Claim C9, as the code has it. For every live isolate the record returned has eleven
  numeric members, each the engine's statistic of the same name: total, executable,
  physical, available and used heap size, heap size limit, malloced, external and peak
  malloced memory, and the numbers of native and detached contexts.
\<close>

theorem C9_heap_statistics_members:
  "isos s i \<noteq> None \<longrightarrow>
     (\<exists>r. IsolationGetHeapStatistics (Some i) hs s = Inr r
        \<and> IsolateHStatistics_members r =
            [(''total_heap_size'', hs_total_heap_size hs),
             (''total_heap_size_executable'', hs_total_heap_size_executable hs),
             (''total_physical_size'', hs_total_physical_size hs),
             (''total_available_size'', hs_total_available_size hs),
             (''used_heap_size'', hs_used_heap_size hs),
             (''heap_size_limit'', hs_heap_size_limit hs),
             (''malloced_memory'', hs_malloced_memory hs),
             (''external_memory'', hs_external_memory hs),
             (''peak_malloced_memory'', hs_peak_malloced_memory hs),
             (''number_of_native_contexts'', hs_number_of_native_contexts hs),
             (''number_of_detached_contexts'', hs_number_of_detached_contexts hs)]
        \<and> length (IsolateHStatistics_members r) = 11)"
  by (auto simp: IsolationGetHeapStatistics_def IsolateHStatistics_members_def bnd_def deref_def)

theorem C9_heap_statistics_members_witness:
  "isos example_store 0 \<noteq> None
   \<and> (\<exists>r. IsolationGetHeapStatistics (Some 0)
             \<lparr>hs_total_heap_size = 1, hs_total_heap_size_executable = 2,
              hs_total_physical_size = 3, hs_total_available_size = 4, hs_used_heap_size = 5,
              hs_heap_size_limit = 6, hs_malloced_memory = 7, hs_external_memory = 8,
              hs_peak_malloced_memory = 9, hs_number_of_native_contexts = 10,
              hs_number_of_detached_contexts = 11\<rparr> example_store = Inr r
        \<and> map snd (IsolateHStatistics_members r) = [1, 2, 3, 4, 5, 6, 7, 8, 9, 10, 11])"
  using C9_heap_statistics_members [of example_store 0
             "\<lparr>hs_total_heap_size = 1, hs_total_heap_size_executable = 2,
              hs_total_physical_size = 3, hs_total_available_size = 4, hs_used_heap_size = 5,
              hs_heap_size_limit = 6, hs_malloced_memory = 7, hs_external_memory = 8,
              hs_peak_malloced_memory = 9, hs_number_of_native_contexts = 10,
              hs_number_of_detached_contexts = 11\<rparr>"]
  by (auto simp: example_store_def)

text \<open>
  Claim C9 as stated says the record has exactly ten fields. On the example store the
  record returned has eleven members, not ten.
\<close>

theorem C9_ten_fields_counterexample:
  "IsolationGetHeapStatistics (Some 0)
      \<lparr>hs_total_heap_size = 1, hs_total_heap_size_executable = 2,
       hs_total_physical_size = 3, hs_total_available_size = 4, hs_used_heap_size = 5,
       hs_heap_size_limit = 6, hs_malloced_memory = 7, hs_external_memory = 8,
       hs_peak_malloced_memory = 9, hs_number_of_native_contexts = 10,
       hs_number_of_detached_contexts = 11\<rparr> example_store
     = Inr \<lparr>total_heap_size = 1, total_heap_size_executable = 2, total_physical_size = 3,
            total_available_size = 4, used_heap_size = 5, heap_size_limit = 6,
            malloced_memory = 7, external_memory = 8, peak_malloced_memory = 9,
            number_of_native_contexts = 10, number_of_detached_contexts = 11\<rparr>
   \<and> length (IsolateHStatistics_members
        \<lparr>total_heap_size = 1, total_heap_size_executable = 2, total_physical_size = 3,
         total_available_size = 4, used_heap_size = 5, heap_size_limit = 6,
         malloced_memory = 7, external_memory = 8, peak_malloced_memory = 9,
         number_of_native_contexts = 10, number_of_detached_contexts = 11\<rparr>) \<noteq> 10"
  by (simp add: IsolationGetHeapStatistics_def IsolateHStatistics_members_def bnd_def deref_def
      example_store_def)

section \<open>Typed errors\<close>

lemma error_switch_default: "\<forall>k. E k \<noteq> idx \<Longrightarrow> error_switch E idx m = None"
  unfolding error_switch_def by (simp add: eq_commute [of idx])

text \<open>
  Claim C10. For an error-type index that is none of the eight enumerators, the
  typed-error constructor returns the null handle and leaves the whole store, so every
  registry, as it was: whenever it returns at all, and it does return whenever the
  isolate, its internal context and the message string are there.
\<close>

theorem C10_unknown_error_index:
  assumes "\<forall>k. E k \<noteq> idx"
  shows "(NewValueError E isolate idx e_msg s = Inr (p, s') \<longrightarrow> p = None \<and> s' = s)
       \<and> (isos s i = Some isolate_rec \<and> GetData0 isolate_rec = Some c \<and> ctxs s c = Some x
            \<and> ctx_ptr x \<noteq> None \<and> e_msg \<noteq> None \<longrightarrow>
          NewValueError E (Some i) idx e_msg s = Inr (None, s))"
  using assms
  by (auto simp: NewValueError_def ISOLATE_SCOPE_INTERNAL_CONTEXT_def ISOLATE_SCOPE_def
      isolateInternalContext_def bnd_def deref_def nonempty_def error_switch_default
      split: sum.splits option.splits prod.splits)

theorem C10_unknown_error_index_witness:
  "(\<forall>k. example_error_index k \<noteq> 9)
   \<and> NewValueError example_error_index (Some 0) 9 (Some (String ''m'')) example_store
       = Inr (None, example_store)"
proof -
  have h: "\<forall>k. example_error_index k \<noteq> 9"
  proof
    fix k show "example_error_index k \<noteq> 9"
      by (cases k) (simp_all add: example_error_index_def)
  qed
  from C10_unknown_error_index [OF h, of "Some 0" "Some (String ''m'')" example_store
      None example_store 0 "\<lparr>GetData0 = Some 1\<rparr>" 1
      "\<lparr>ctx_iso = 0, ctx_vals = [4, 5],
        ctx_ptr = Some \<lparr>EmbedderData1 = None, Global = Object 0\<rparr>\<rparr>"]
  show ?thesis using h by (simp add: example_store_def)
qed

section \<open>Template keys\<close>

lemma IsName_iff:
  "IsName key \<longleftrightarrow> (\<exists>str. key = String str) \<or> (\<exists>n. key = WellKnownSymbol n) \<or> (\<exists>n. key = Symbol n)"
  by (cases key) simp_all

lemma LOCAL_TEMPLATE_live:
  "tmpls s t = Some tm \<Longrightarrow> isos s (tmpl_iso tm) \<noteq> None
   \<Longrightarrow> LOCAL_TEMPLATE s (Some t) = Inr (tmpl_iso tm, tmpl_ptr tm)"
  by (auto simp: LOCAL_TEMPLATE_def ISOLATE_SCOPE_def bnd_def deref_def)

text \<open>
  Claim C8. On a live template, with a key wrapper whose value is not name-like (not a
  string and not a symbol), setting a value and setting a sub-template both return
  \<open>0\<close> (false) and leave the store as it was; they do not fault. With a name-like key,
  and the value or sub-template there, both add the property to the template and
  return \<open>1\<close> (true).
\<close>

theorem C8_template_set_any_key:
  assumes "tmpls s t = Some tm" and "isos s (tmpl_iso tm) \<noteq> None"
    and "vals s k = Some km" and "val_ptr km = Some key"
  shows "(IsName key \<longleftrightarrow>
            (\<exists>str. key = String str) \<or> (\<exists>n. key = WellKnownSymbol n) \<or> (\<exists>n. key = Symbol n))
       \<and> (\<not> IsName key \<longrightarrow>
            TemplateSetAnyValue (Some t) (Some k) val attrs s = Inr (0, s)
            \<and> TemplateSetAnyTemplate (Some t) (Some k) obj attrs s = Inr (0, s))
       \<and> (IsName key \<and> tmpl_ptr tm = Some et \<and> engine_templates s et = Some info \<longrightarrow>
            (vals s v = Some vm \<and> val_ptr vm = Some x \<longrightarrow>
               TemplateSetAnyValue (Some t) (Some k) (Some v) attrs s =
                 Inr (1, s\<lparr>engine_templates := (engine_templates s)
                        (et \<mapsto> info\<lparr>properties :=
                                  properties info @ [(key, DataValue x, attrs)]\<rparr>)\<rparr>))
            \<and> (tmpls s ob = Some om \<and> tmpl_ptr om = Some ot \<longrightarrow>
               TemplateSetAnyTemplate (Some t) (Some k) (Some ob) attrs s =
                 Inr (1, s\<lparr>engine_templates := (engine_templates s)
                        (et \<mapsto> info\<lparr>properties :=
                                  properties info @ [(key, DataTemplate ot, attrs)]\<rparr>)\<rparr>)))"
  using assms
  by (auto simp: IsName_iff TemplateSetAnyValue_def TemplateSetAnyTemplate_def LOCAL_TEMPLATE_live
      Template_Set_def bnd_def deref_def nonempty_def)

theorem C8_template_set_any_key_witness:
  "TemplateSetAnyValue (Some 3) (Some 4) (Some 5) 0 example_store = Inr (0, example_store)
   \<and> TemplateSetAnyTemplate (Some 3) (Some 4) (Some 3) 0 example_store = Inr (0, example_store)
   \<and> TemplateSetAnyValue (Some 3) (Some 5) (Some 4) 0 example_store =
       Inr (1, example_store\<lparr>engine_templates :=
                 [2 \<mapsto> \<lparr>kind = ObjectTemplate,
                         properties = [(String ''k'', DataValue (Integer 7), 0)]\<rparr>]\<rparr>)
   \<and> TemplateSetAnyTemplate (Some 3) (Some 5) (Some 3) 0 example_store =
       Inr (1, example_store\<lparr>engine_templates :=
                 [2 \<mapsto> \<lparr>kind = ObjectTemplate,
                         properties = [(String ''k'', DataTemplate 2, 0)]\<rparr>]\<rparr>)"
  using C8_template_set_any_key [where s = example_store and t = 3
      and tm = "\<lparr>tmpl_iso = 0, tmpl_ptr = Some 2\<rparr>" and k = 4
      and km = "\<lparr>val_iso = 0, val_ctx = Some 1, val_ptr = Some (Integer 7)\<rparr>"
      and key = "Integer 7" and val = "Some 5" and attrs = 0 and obj = "Some 3"]
    C8_template_set_any_key [where s = example_store and t = 3
      and tm = "\<lparr>tmpl_iso = 0, tmpl_ptr = Some 2\<rparr>" and k = 5
      and km = "\<lparr>val_iso = 0, val_ctx = Some 1, val_ptr = Some (String ''k'')\<rparr>"
      and key = "String ''k''" and et = 2
      and info = "\<lparr>kind = ObjectTemplate, properties = []\<rparr>" and v = 4
      and vm = "\<lparr>val_iso = 0, val_ctx = Some 1, val_ptr = Some (Integer 7)\<rparr>"
      and x = "Integer 7" and attrs = 0 and ob = 3
      and om = "\<lparr>tmpl_iso = 0, tmpl_ptr = Some 2\<rparr>" and ot = 2]
  by (simp add: example_store_def)

section \<open>Stringify\<close>

text \<open>
  Claim C7. \<open>JSONStringify\<close> serialises in the context argument when there is one;
  without one, in the sandbox the value is tagged with; and when the value has none
  either, in the default sandbox of the value's isolate. The result is the copied
  text, and when the engine's serialisation fails it is the null string: the return
  type has no error record.
\<close>

theorem C7_stringify_scope:
  assumes "vals s v = Some m" and "val_ptr m = Some jv"
    and "(case ctx of
            Some c' \<Rightarrow> Some c'
          | None \<Rightarrow> (case val_ctx m of
                       Some c' \<Rightarrow> Some c'
                     | None \<Rightarrow> default_sandbox s (Some (val_iso m)))) = Some c"
    and "ctxs s c = Some x" and "ctx_ptr x = Some local_ctx"
    and "isos s (case ctx of Some c' \<Rightarrow> ctx_iso x | None \<Rightarrow> val_iso m) \<noteq> None"
  shows "JSONStringify ctx (Some v) JSON_Stringify s =
           Inr (case JSON_Stringify local_ctx jv of
                  None \<Rightarrow> None
                | Some str \<Rightarrow> CopyString_utf8 (Some str))
       \<and> (JSON_Stringify local_ctx jv = None \<longrightarrow>
            JSONStringify ctx (Some v) JSON_Stringify s = Inr None)"
proof -
  have main: "JSONStringify ctx (Some v) JSON_Stringify s =
           Inr (case JSON_Stringify local_ctx jv of
                  None \<Rightarrow> None
                | Some str \<Rightarrow> CopyString_utf8 (Some str))"
  proof (cases ctx)
    case (Some c')
    with assms show ?thesis
      by (auto simp: JSONStringify_def ISOLATE_SCOPE_def bnd_def deref_def nonempty_def
          split: option.splits)
  next
    case None
    show ?thesis
    proof (cases "val_ctx m")
      case (Some c')
      with None assms show ?thesis
        by (auto simp: JSONStringify_def ISOLATE_SCOPE_def bnd_def deref_def nonempty_def
            split: option.splits)
    next
      case vNone: None
      with None assms show ?thesis
        by (auto simp: JSONStringify_def ISOLATE_SCOPE_def isolateInternalContext_def
            default_sandbox_def bnd_def deref_def nonempty_def split: option.splits)
    qed
  qed
  then show ?thesis by simp
qed

theorem C7_stringify_scope_witness:
  "JSONStringify (Some 1) (Some 4)
     (\<lambda>c v. if Global c = Object 0 \<and> v = Integer 7 then Some ''7'' else None) example_store
     = Inr (Some ''7'')
   \<and> JSONStringify None (Some 4)
     (\<lambda>c v. if Global c = Object 0 \<and> v = Integer 7 then Some ''7'' else None) example_store
     = Inr (Some ''7'')
   \<and> JSONStringify None (Some 4)
     (\<lambda>c v. if Global c = Object 0 \<and> v = Integer 7 then Some ''7'' else None)
     (example_store\<lparr>vals := [4 \<mapsto> \<lparr>val_iso = 0, val_ctx = None, val_ptr = Some (Integer 7)\<rparr>]\<rparr>)
     = Inr (Some ''7'')
   \<and> JSONStringify None (Some 5)
     (\<lambda>c v. if Global c = Object 0 \<and> v = Integer 7 then Some ''7'' else None) example_store
     = Inr None"
  using C7_stringify_scope [where s = example_store and v = 4 and ctx = "Some 1" and c = 1
      and m = "\<lparr>val_iso = 0, val_ctx = Some 1, val_ptr = Some (Integer 7)\<rparr>"
      and jv = "Integer 7"
      and x = "\<lparr>ctx_iso = 0, ctx_vals = [4, 5],
                ctx_ptr = Some \<lparr>EmbedderData1 = None, Global = Object 0\<rparr>\<rparr>"
      and local_ctx = "\<lparr>EmbedderData1 = None, Global = Object 0\<rparr>"
      and JSON_Stringify = "\<lambda>c v. if Global c = Object 0 \<and> v = Integer 7 then Some ''7'' else None"]
    C7_stringify_scope [where s = example_store and v = 4 and ctx = None and c = 1
      and m = "\<lparr>val_iso = 0, val_ctx = Some 1, val_ptr = Some (Integer 7)\<rparr>"
      and jv = "Integer 7"
      and x = "\<lparr>ctx_iso = 0, ctx_vals = [4, 5],
                ctx_ptr = Some \<lparr>EmbedderData1 = None, Global = Object 0\<rparr>\<rparr>"
      and local_ctx = "\<lparr>EmbedderData1 = None, Global = Object 0\<rparr>"
      and JSON_Stringify = "\<lambda>c v. if Global c = Object 0 \<and> v = Integer 7 then Some ''7'' else None"]
    C7_stringify_scope [where
      s = "example_store\<lparr>vals := [4 \<mapsto> \<lparr>val_iso = 0, val_ctx = None, val_ptr = Some (Integer 7)\<rparr>]\<rparr>"
      and v = 4 and ctx = None and c = 1
      and m = "\<lparr>val_iso = 0, val_ctx = None, val_ptr = Some (Integer 7)\<rparr>"
      and jv = "Integer 7"
      and x = "\<lparr>ctx_iso = 0, ctx_vals = [4, 5],
                ctx_ptr = Some \<lparr>EmbedderData1 = None, Global = Object 0\<rparr>\<rparr>"
      and local_ctx = "\<lparr>EmbedderData1 = None, Global = Object 0\<rparr>"
      and JSON_Stringify = "\<lambda>c v. if Global c = Object 0 \<and> v = Integer 7 then Some ''7'' else None"]
    C7_stringify_scope [where s = example_store and v = 5 and ctx = None and c = 1
      and m = "\<lparr>val_iso = 0, val_ctx = Some 1, val_ptr = Some (String ''k'')\<rparr>"
      and jv = "String ''k''"
      and x = "\<lparr>ctx_iso = 0, ctx_vals = [4, 5],
                ctx_ptr = Some \<lparr>EmbedderData1 = None, Global = Object 0\<rparr>\<rparr>"
      and local_ctx = "\<lparr>EmbedderData1 = None, Global = Object 0\<rparr>"
      and JSON_Stringify = "\<lambda>c v. if Global c = Object 0 \<and> v = Integer 7 then Some ''7'' else None"]
  by (simp add: example_store_def default_sandbox_def CopyString_utf8_def utf8_length_def
      CopyString_def c_str_def NUL_def)

section \<open>Basic facts about the heap operations\<close>

lemma bnd_Inr_iff: "bnd m f = Inr y \<longleftrightarrow> (\<exists>x. m = Inr x \<and> f x = Inr y)"
  by (cases m) (simp_all add: bnd_def)

lemma deref_Inr_iff: "deref h p = Inr x \<longleftrightarrow> (\<exists>a. p = Some a \<and> h a = Some x)"
  by (auto simp: deref_def split: option.splits)

lemma nonempty_Inr_iff: "nonempty h = Inr x \<longleftrightarrow> h = Some x"
  by (auto simp: nonempty_def split: option.splits)

lemma tracked_value_Inr_iff:
  "tracked_value ctx v s = Inr (r, s') \<longleftrightarrow>
     (\<exists>c x. ctx = Some c \<and> ctxs s c = Some x \<and> r = v
        \<and> s' = s\<lparr>ctxs := (ctxs s)(c \<mapsto> x\<lparr>ctx_vals := ctx_vals x @ [v]\<rparr>)\<rparr>)"
  by (auto simp: tracked_value_def bnd_Inr_iff deref_Inr_iff)

lemma new_tracked_value_Inr_iff:
  "new_tracked_value i ctx h s = Inr (w, s') \<longleftrightarrow>
     (\<exists>c x. ctx = Some c \<and> ctxs s c = Some x \<and> w = next_addr s
        \<and> s' = s\<lparr>vals := (vals s)(next_addr s \<mapsto> \<lparr>val_iso = i, val_ctx = ctx, val_ptr = h\<rparr>),
                  next_addr := Suc (next_addr s),
                  ctxs := (ctxs s)(c \<mapsto> x\<lparr>ctx_vals := ctx_vals x @ [next_addr s]\<rparr>)\<rparr>)"
  by (auto simp: new_tracked_value_def new_m_value_def tracked_value_Inr_iff)

lemma release_values_live:
  "distinct vs \<Longrightarrow> set vs \<subseteq> dom (vals s) \<Longrightarrow>
   release_values vs s =
     Inr (s\<lparr>vals := vals s |` (- set vs), trace := trace s @ released_values vs\<rparr>)"
proof (induction vs arbitrary: s)
  case Nil
  then show ?case by (simp add: released_values_def)
next
  case (Cons v vs)
  let ?s1 = "s\<lparr>vals := (vals s)(v := None), trace := trace s @ [ResetValue v, DeleteValue v]\<rparr>"
  from Cons.prems obtain m where m: "vals s v = Some m" by auto
  have sub: "set vs \<subseteq> dom (vals ?s1)" using Cons.prems by auto
  have d: "distinct vs" using Cons.prems by simp
  have "release_values (v # vs) s = release_values vs ?s1"
    using m by (simp add: bnd_def deref_def)
  also have "\<dots> = Inr (?s1\<lparr>vals := vals ?s1 |` (- set vs),
                            trace := trace ?s1 @ released_values vs\<rparr>)"
    by (rule Cons.IH [OF d sub])
  also have "?s1\<lparr>vals := vals ?s1 |` (- set vs), trace := trace ?s1 @ released_values vs\<rparr>
      = s\<lparr>vals := vals s |` (- set (v # vs)), trace := trace s @ released_values (v # vs)\<rparr>"
    by (auto simp: released_values_def restrict_map_def fun_eq_iff)
  finally show ?case .
qed

lemma release_values_Inr_live:
  "release_values vs s = Inr s' \<Longrightarrow>
     distinct vs \<and> set vs \<subseteq> dom (vals s)"
proof (induction vs arbitrary: s)
  case Nil
  then show ?case by simp
next
  case (Cons v vs)
  from Cons.prems obtain m where m: "vals s v = Some m"
    and r: "release_values vs
         (s\<lparr>vals := (vals s)(v := None), trace := trace s @ [ResetValue v, DeleteValue v]\<rparr>) = Inr s'"
    by (auto simp: bnd_Inr_iff deref_Inr_iff)
  from Cons.IH [OF r] m show ?case by (auto split: if_splits)
qed

section \<open>Releasing a sandbox\<close>

text \<open>
  Claim C2, as the code has it. \<open>ContextFree\<close> on the null sandbox returns with the
  store untouched, so it can be repeated at will. On a live sandbox whose registry holds
  live, distinct wrappers it resets the global-scope handle, then resets and deletes
  every tracked wrapper in registration order, then deletes the sandbox. From then on the
  same handle is dangling: a second call with it reads freed memory, which the model
  reports as a fault, as it does for any handle that is not live.
\<close>

theorem C2_free_sandbox:
  "ContextFree None s = Inr s
   \<and> (ctxs s c = None \<longrightarrow> ContextFree (Some c) s = Inl DanglingPointer)
   \<and> (ctxs s c = Some x \<and> distinct (ctx_vals x) \<and> set (ctx_vals x) \<subseteq> dom (vals s) \<longrightarrow>
        ContextFree (Some c) s =
          Inr (s\<lparr>vals := vals s |` (- set (ctx_vals x)),
                 trace := trace s @ [ResetContext c] @ released_values (ctx_vals x)
                            @ [DeleteContext c],
                 ctxs := (ctxs s)(c := None)\<rparr>)
        \<and> ContextFree (Some c)
            (s\<lparr>vals := vals s |` (- set (ctx_vals x)),
               trace := trace s @ [ResetContext c] @ released_values (ctx_vals x)
                          @ [DeleteContext c],
               ctxs := (ctxs s)(c := None)\<rparr>) = Inl DanglingPointer)"
proof -
  have null: "ContextFree None s = Inr s"
    by (simp add: ContextFree_def)
  have dangling: "ContextFree (Some c) t = Inl DanglingPointer" if "ctxs t c = None" for t
    using that by (simp add: ContextFree_def bnd_def deref_def)
  have live: "ContextFree (Some c) s =
          Inr (s\<lparr>vals := vals s |` (- set (ctx_vals x)),
                 trace := trace s @ [ResetContext c] @ released_values (ctx_vals x)
                            @ [DeleteContext c],
                 ctxs := (ctxs s)(c := None)\<rparr>)"
    if "ctxs s c = Some x" "distinct (ctx_vals x)" "set (ctx_vals x) \<subseteq> dom (vals s)"
  proof -
    have "release_values (ctx_vals x) (s\<lparr>trace := trace s @ [ResetContext c]\<rparr>) =
        Inr (s\<lparr>trace := trace s @ [ResetContext c]\<rparr>
              \<lparr>vals := vals s |` (- set (ctx_vals x)),
               trace := (trace s @ [ResetContext c]) @ released_values (ctx_vals x)\<rparr>)"
      using release_values_live [of "ctx_vals x" "s\<lparr>trace := trace s @ [ResetContext c]\<rparr>"] that
      by simp
    then show ?thesis using that
      by (simp add: ContextFree_def bnd_def deref_def)
  qed
  show ?thesis using null dangling live by simp
qed

theorem C2_free_sandbox_witness:
  "ContextFree None example_store = Inr example_store
   \<and> ContextFree (Some 1) example_store =
       Inr (example_store\<lparr>vals := vals example_store |` (- {4, 5}),
              trace := [ResetContext 1, ResetValue 4, DeleteValue 4, ResetValue 5, DeleteValue 5,
                        DeleteContext 1],
              ctxs := Map.empty\<rparr>)
   \<and> ContextFree (Some 7) example_store = Inl DanglingPointer"
  using C2_free_sandbox [of example_store 1
      "\<lparr>ctx_iso = 0, ctx_vals = [4, 5],
        ctx_ptr = Some \<lparr>EmbedderData1 = None, Global = Object 0\<rparr>\<rparr>"]
     C2_free_sandbox [of example_store 7]
  by (simp add: example_store_def released_values_def)

text \<open>
  Claim C2 as stated makes the second call on the same handle a safe no-op. On the
  example store the first call on sandbox 1 releases it, and the second call on the same
  handle faults.
\<close>

theorem C2_second_free_counterexample:
  "ContextFree (Some 1) example_store =
       Inr (example_store\<lparr>vals := Map.empty,
              trace := [ResetContext 1, ResetValue 4, DeleteValue 4, ResetValue 5, DeleteValue 5,
                        DeleteContext 1],
              ctxs := Map.empty\<rparr>)
   \<and> ContextFree (Some 1)
       (example_store\<lparr>vals := Map.empty,
              trace := [ResetContext 1, ResetValue 4, DeleteValue 4, ResetValue 5, DeleteValue 5,
                        DeleteContext 1],
              ctxs := Map.empty\<rparr>) = Inl DanglingPointer"
  by (simp add: ContextFree_def example_store_def bnd_def deref_def)

section \<open>What the creating operations do to the store\<close>

text \<open>
  Every operation that hands a wrapper back to the host does nothing else to the store
  than run the creating block, in the sandbox in scope; an operation that fails leaves
  the store as it was.
\<close>

lemma tracks_single: "new_tracked_value i ctx h s = Inr (w, s') \<Longrightarrow> tracks s ctx [w] s'"
  by (blast intro: tracks.intros)

lemma rtn_failed_Inr_iff:
  "rtn_failed tc s = Inr (r, s') \<longleftrightarrow>
     r = \<lparr>rtn_value = None, rtn_error = ExceptionError tc\<rparr> \<and> s' = s"
  by (auto simp: rtn_failed_def)

lemma rtn_tracked_Inr_iff:
  "rtn_tracked i ctx h s = Inr (r, s') \<longleftrightarrow>
     (\<exists>w. r = \<lparr>rtn_value = Some w, rtn_error = no_error\<rparr>
        \<and> new_tracked_value i ctx h s = Inr (w, s'))"
  by (auto simp: rtn_tracked_def bnd_Inr_iff)

lemma LOCAL_VALUE_sandbox:
  "LOCAL_VALUE s ptr = Inr (i, ctx, lc, v) \<Longrightarrow> ctx = value_sandbox s ptr"
  by (auto simp: LOCAL_VALUE_def ISOLATE_SCOPE_def isolateInternalContext_def value_sandbox_def
      default_sandbox_def bnd_Inr_iff deref_Inr_iff split: if_splits)

lemma ISOLATE_SCOPE_INTERNAL_CONTEXT_sandbox:
  "ISOLATE_SCOPE_INTERNAL_CONTEXT s isolate = Inr (i, ctx) \<Longrightarrow> ctx = default_sandbox s isolate"
  by (auto simp: ISOLATE_SCOPE_INTERNAL_CONTEXT_def ISOLATE_SCOPE_def isolateInternalContext_def
      default_sandbox_def bnd_Inr_iff deref_Inr_iff)

lemmas rtn_Inr_iff = bnd_Inr_iff rtn_failed_Inr_iff rtn_tracked_Inr_iff

lemma ObjectTemplateNewInstance_tracks:
  "ObjectTemplateNewInstance ptr ctx e tc s = Inr (r, s') \<Longrightarrow>
     tracks s ctx (case rtn_value r of None \<Rightarrow> [] | Some w \<Rightarrow> [w]) s'"
  by (auto simp: ObjectTemplateNewInstance_def rtn_Inr_iff split: option.splits;
      (rule tracks_Nil | erule tracks_single))

lemma FunctionTemplateGetFunction_tracks:
  "FunctionTemplateGetFunction ptr ctx e tc s = Inr (r, s') \<Longrightarrow>
     tracks s ctx (case rtn_value r of None \<Rightarrow> [] | Some w \<Rightarrow> [w]) s'"
  by (auto simp: FunctionTemplateGetFunction_def rtn_Inr_iff split: option.splits;
      (rule tracks_Nil | erule tracks_single))

lemma RunScript_tracks:
  "RunScript ctx e1 e2 e3 e4 tc s = Inr (r, s') \<Longrightarrow>
     tracks s ctx (case rtn_value r of None \<Rightarrow> [] | Some w \<Rightarrow> [w]) s'"
  by (cases e4;
      auto simp: RunScript_def rtn_Inr_iff split: if_split_asm;
      (rule tracks_Nil | erule tracks_single))

lemma JSONParse_tracks:
  "JSONParse ctx e1 e2 tc s = Inr (r, s') \<Longrightarrow>
     tracks s ctx (case rtn_value r of None \<Rightarrow> [] | Some w \<Rightarrow> [w]) s'"
  by (auto simp: JSONParse_def Let_def rtn_Inr_iff split: option.splits if_splits;
      (rule tracks_Nil | erule tracks_single))

lemma ContextGlobal_tracks:
  "ContextGlobal ctx s = Inr (w, s') \<Longrightarrow> tracks s ctx [w] s'"
  by (auto simp: ContextGlobal_def rtn_Inr_iff;
      (rule tracks_Nil | erule tracks_single))

lemma NewPromiseResolver_tracks:
  "NewPromiseResolver ctx e tc s = Inr (r, s') \<Longrightarrow>
     tracks s ctx (case rtn_value r of None \<Rightarrow> [] | Some w \<Rightarrow> [w]) s'"
  by (auto simp: NewPromiseResolver_def rtn_Inr_iff split: option.splits;
      (rule tracks_Nil | erule tracks_single))

lemma ValueToObject_tracks:
  "ValueToObject ptr e tc s = Inr (r, s') \<Longrightarrow>
     tracks s (value_sandbox s ptr) (case rtn_value r of None \<Rightarrow> [] | Some w \<Rightarrow> [w]) s'"
  by (auto simp: ValueToObject_def rtn_Inr_iff split: option.splits
      dest!: LOCAL_VALUE_sandbox;
      (rule tracks_Nil | erule tracks_single))

lemma ObjectGet_tracks:
  "ObjectGet ptr e1 e2 tc s = Inr (r, s') \<Longrightarrow>
     tracks s (value_sandbox s ptr) (case rtn_value r of None \<Rightarrow> [] | Some w \<Rightarrow> [w]) s'"
  by (auto simp: ObjectGet_def rtn_Inr_iff split: option.splits
      dest!: LOCAL_VALUE_sandbox;
      (rule tracks_Nil | erule tracks_single))

lemma ObjectGetAnyKey_tracks:
  "ObjectGetAnyKey ptr key e2 tc s = Inr (r, s') \<Longrightarrow>
     tracks s (value_sandbox s ptr) (case rtn_value r of None \<Rightarrow> [] | Some w \<Rightarrow> [w]) s'"
  by (auto simp: ObjectGetAnyKey_def rtn_Inr_iff split: option.splits
      dest!: LOCAL_VALUE_sandbox;
      (rule tracks_Nil | erule tracks_single))

lemma ObjectGetIdx_tracks:
  "ObjectGetIdx ptr idx e2 tc s = Inr (r, s') \<Longrightarrow>
     tracks s (value_sandbox s ptr) (case rtn_value r of None \<Rightarrow> [] | Some w \<Rightarrow> [w]) s'"
  by (auto simp: ObjectGetIdx_def rtn_Inr_iff split: option.splits
      dest!: LOCAL_VALUE_sandbox;
      (rule tracks_Nil | erule tracks_single))

lemma PromiseResolverGetPromise_tracks:
  "PromiseResolverGetPromise ptr e s = Inr (w, s') \<Longrightarrow> tracks s (value_sandbox s ptr) [w] s'"
  by (auto simp: PromiseResolverGetPromise_def rtn_Inr_iff
      dest!: LOCAL_VALUE_sandbox;
      (rule tracks_Nil | erule tracks_single))

lemma PromiseThen_tracks:
  "PromiseThen ptr cb e1 e2 tc s = Inr (r, s') \<Longrightarrow>
     tracks s (value_sandbox s ptr) (case rtn_value r of None \<Rightarrow> [] | Some w \<Rightarrow> [w]) s'"
  by (auto simp: PromiseThen_def rtn_Inr_iff split: option.splits
      dest!: LOCAL_VALUE_sandbox;
      (rule tracks_Nil | erule tracks_single))

lemma PromiseThen2_tracks:
  "PromiseThen2 ptr cb1 cb2 e1 e2 e3 tc s = Inr (r, s') \<Longrightarrow>
     tracks s (value_sandbox s ptr) (case rtn_value r of None \<Rightarrow> [] | Some w \<Rightarrow> [w]) s'"
  by (auto simp: PromiseThen2_def rtn_Inr_iff split: option.splits
      dest!: LOCAL_VALUE_sandbox;
      (rule tracks_Nil | erule tracks_single))

lemma PromiseCatch_tracks:
  "PromiseCatch ptr cb e1 e2 tc s = Inr (r, s') \<Longrightarrow>
     tracks s (value_sandbox s ptr) (case rtn_value r of None \<Rightarrow> [] | Some w \<Rightarrow> [w]) s'"
  by (auto simp: PromiseCatch_def rtn_Inr_iff split: option.splits
      dest!: LOCAL_VALUE_sandbox;
      (rule tracks_Nil | erule tracks_single))

lemma PromiseResult_tracks:
  "PromiseResult ptr e s = Inr (w, s') \<Longrightarrow> tracks s (value_sandbox s ptr) [w] s'"
  by (auto simp: PromiseResult_def rtn_Inr_iff
      dest!: LOCAL_VALUE_sandbox;
      (rule tracks_Nil | erule tracks_single))

lemma FunctionCall_tracks:
  "FunctionCall ptr recv args e tc s = Inr (r, s') \<Longrightarrow>
     tracks s (value_sandbox s ptr) (case rtn_value r of None \<Rightarrow> [] | Some w \<Rightarrow> [w]) s'"
  by (auto simp: FunctionCall_def rtn_Inr_iff split: option.splits
      dest!: LOCAL_VALUE_sandbox;
      (rule tracks_Nil | erule tracks_single))

lemma FunctionNewInstance_tracks:
  "FunctionNewInstance ptr args e tc s = Inr (r, s') \<Longrightarrow>
     tracks s (value_sandbox s ptr) (case rtn_value r of None \<Rightarrow> [] | Some w \<Rightarrow> [w]) s'"
  by (auto simp: FunctionNewInstance_def rtn_Inr_iff split: option.splits
      dest!: LOCAL_VALUE_sandbox;
      (rule tracks_Nil | erule tracks_single))

lemma FunctionSourceMapUrl_tracks:
  "FunctionSourceMapUrl ptr e s = Inr (w, s') \<Longrightarrow> tracks s (value_sandbox s ptr) [w] s'"
  by (auto simp: FunctionSourceMapUrl_def rtn_Inr_iff
      dest!: LOCAL_VALUE_sandbox;
      (rule tracks_Nil | erule tracks_single))

lemma NewValueInteger_tracks:
  "NewValueInteger isolate v s = Inr (w, s') \<Longrightarrow> tracks s (default_sandbox s isolate) [w] s'"
  by (auto simp: NewValueInteger_def rtn_Inr_iff
      dest!: ISOLATE_SCOPE_INTERNAL_CONTEXT_sandbox;
      (rule tracks_Nil | erule tracks_single))

lemma NewValueIntegerFromUnsigned_tracks:
  "NewValueIntegerFromUnsigned isolate v s = Inr (w, s') \<Longrightarrow>
     tracks s (default_sandbox s isolate) [w] s'"
  by (auto simp: NewValueIntegerFromUnsigned_def rtn_Inr_iff
      dest!: ISOLATE_SCOPE_INTERNAL_CONTEXT_sandbox;
      (rule tracks_Nil | erule tracks_single))

lemma NewValueString_tracks:
  "NewValueString isolate e tc s = Inr (r, s') \<Longrightarrow>
     tracks s (default_sandbox s isolate) (case rtn_value r of None \<Rightarrow> [] | Some w \<Rightarrow> [w]) s'"
  by (auto simp: NewValueString_def rtn_Inr_iff split: option.splits
      dest!: ISOLATE_SCOPE_INTERNAL_CONTEXT_sandbox;
      (rule tracks_Nil | erule tracks_single))

lemma NewValueNull_tracks:
  "NewValueNull isolate s = Inr (w, s') \<Longrightarrow> tracks s (default_sandbox s isolate) [w] s'"
  by (auto simp: NewValueNull_def rtn_Inr_iff
      dest!: ISOLATE_SCOPE_INTERNAL_CONTEXT_sandbox;
      (rule tracks_Nil | erule tracks_single))

lemma NewValueUndefined_tracks:
  "NewValueUndefined isolate s = Inr (w, s') \<Longrightarrow> tracks s (default_sandbox s isolate) [w] s'"
  by (auto simp: NewValueUndefined_def rtn_Inr_iff
      dest!: ISOLATE_SCOPE_INTERNAL_CONTEXT_sandbox;
      (rule tracks_Nil | erule tracks_single))

lemma NewValueBoolean_tracks:
  "NewValueBoolean isolate v s = Inr (w, s') \<Longrightarrow> tracks s (default_sandbox s isolate) [w] s'"
  by (auto simp: NewValueBoolean_def rtn_Inr_iff
      dest!: ISOLATE_SCOPE_INTERNAL_CONTEXT_sandbox;
      (rule tracks_Nil | erule tracks_single))

lemma NewValueNumber_tracks:
  "NewValueNumber isolate v s = Inr (w, s') \<Longrightarrow> tracks s (default_sandbox s isolate) [w] s'"
  by (auto simp: NewValueNumber_def rtn_Inr_iff
      dest!: ISOLATE_SCOPE_INTERNAL_CONTEXT_sandbox;
      (rule tracks_Nil | erule tracks_single))

lemma NewValueBigInt_tracks:
  "NewValueBigInt isolate v s = Inr (w, s') \<Longrightarrow> tracks s (default_sandbox s isolate) [w] s'"
  by (auto simp: NewValueBigInt_def rtn_Inr_iff
      dest!: ISOLATE_SCOPE_INTERNAL_CONTEXT_sandbox;
      (rule tracks_Nil | erule tracks_single))

lemma NewValueBigIntFromUnsigned_tracks:
  "NewValueBigIntFromUnsigned isolate v s = Inr (w, s') \<Longrightarrow>
     tracks s (default_sandbox s isolate) [w] s'"
  by (auto simp: NewValueBigIntFromUnsigned_def rtn_Inr_iff
      dest!: ISOLATE_SCOPE_INTERNAL_CONTEXT_sandbox;
      (rule tracks_Nil | erule tracks_single))

lemma NewValueBigIntFromWords_tracks:
  "NewValueBigIntFromWords isolate e tc s = Inr (r, s') \<Longrightarrow>
     tracks s (default_sandbox s isolate) (case rtn_value r of None \<Rightarrow> [] | Some w \<Rightarrow> [w]) s'"
  by (auto simp: NewValueBigIntFromWords_def rtn_Inr_iff split: option.splits
      dest!: ISOLATE_SCOPE_INTERNAL_CONTEXT_sandbox;
      (rule tracks_Nil | erule tracks_single))

lemma NewValueError_tracks:
  "NewValueError E isolate idx e s = Inr (p, s') \<Longrightarrow>
     tracks s (default_sandbox s isolate) (case p of None \<Rightarrow> [] | Some w \<Rightarrow> [w]) s'"
  by (auto simp: NewValueError_def rtn_Inr_iff split: option.splits
      dest!: ISOLATE_SCOPE_INTERNAL_CONTEXT_sandbox;
      (rule tracks_Nil | erule tracks_single))

lemma BuiltinSymbol_tracks:
  "BuiltinSymbol E isolate idx s = Inr (p, s') \<Longrightarrow>
     tracks s (default_sandbox s isolate) (case p of None \<Rightarrow> [] | Some w \<Rightarrow> [w]) s'"
  by (auto simp: BuiltinSymbol_def rtn_Inr_iff split: option.splits
      dest!: ISOLATE_SCOPE_INTERNAL_CONTEXT_sandbox;
      (rule tracks_Nil | erule tracks_single))

lemma wrap_arguments_tracks:
  "wrap_arguments i ctx as s = Inr (ws, s') \<Longrightarrow> tracks s ctx ws s'"
proof (induction as arbitrary: s ws)
  case Nil
  then show ?case by (auto intro: tracks.intros)
next
  case (Cons a as)
  then show ?case
    by (auto simp: bnd_Inr_iff intro: tracks.intros)
qed

lemma wrap_this_and_args_tracks:
  "wrap_this_and_args i ctx info s = Inr (ws, s') \<Longrightarrow> tracks s ctx ws s'"
  by (auto simp: wrap_this_and_args_def rtn_Inr_iff intro: tracks.intros wrap_arguments_tracks)

section \<open>Tracking keeps the registry invariant\<close>

lemma tracks_next_addr: "tracks s ctx ws s' \<Longrightarrow> next_addr s' = next_addr s + length ws"
  by (induction rule: tracks.induct) (auto simp: new_tracked_value_Inr_iff)

lemma tracks_addresses:
  "tracks s ctx ws s' \<Longrightarrow> ws = [next_addr s ..< next_addr s + length ws]"
proof (induction rule: tracks.induct)
  case (tracks_Nil s ctx)
  then show ?case by simp
next
  case (tracks_Cons isolate ctx x s w s1 ws s')
  then have w: "w = next_addr s" and n: "next_addr s1 = Suc (next_addr s)"
    by (auto simp: new_tracked_value_Inr_iff)
  from tracks_Cons.IH n have eq: "[Suc (next_addr s) ..< Suc (next_addr s) + length ws] = ws"
    by simp
  have "[next_addr s ..< next_addr s + length (w # ws)]
      = next_addr s # [Suc (next_addr s) ..< Suc (next_addr s) + length ws]"
    by (subst upt_rec) (simp del: upt_Suc)
  with eq w show ?case by (simp del: upt_Suc)
qed

lemma tracks_frame:
  "tracks s ctx ws s' \<Longrightarrow>
     isos s' = isos s \<and> tmpls s' = tmpls s \<and> engine_templates s' = engine_templates s
     \<and> trace s' = trace s"
  by (induction rule: tracks.induct) (auto simp: new_tracked_value_Inr_iff)

lemma tracks_set: "tracks s ctx ws s' \<Longrightarrow> a \<in> set ws \<longleftrightarrow> next_addr s \<le> a \<and> a < next_addr s'"
proof -
  assume t: "tracks s ctx ws s'"
  have "set ws = set [next_addr s ..< next_addr s + length ws]"
    using tracks_addresses [OF t] by simp
  then show ?thesis using tracks_next_addr [OF t] by auto
qed

lemma tracks_vals_other:
  "tracks s ctx ws s' \<Longrightarrow> a \<notin> set ws \<Longrightarrow> vals s' a = vals s a"
proof (induction rule: tracks.induct)
  case (tracks_Nil s ctx)
  then show ?case by simp
next
  case (tracks_Cons isolate ctx x s w s1 ws s')
  then show ?case by (auto simp: new_tracked_value_Inr_iff)
qed

lemma tracks_vals_new:
  "tracks s ctx ws s' \<Longrightarrow> a \<in> set ws \<Longrightarrow> \<exists>m. vals s' a = Some m \<and> val_ctx m = ctx"
proof (induction rule: tracks.induct)
  case (tracks_Nil s ctx)
  then show ?case by simp
next
  case (tracks_Cons isolate ctx x s w s1 ws s')
  show ?case
  proof (cases "a \<in> set ws")
    case True
    then show ?thesis using tracks_Cons.IH by simp
  next
    case False
    with tracks_Cons.prems have a: "a = w" by simp
    from tracks_Cons.hyps(1) have "\<exists>m. vals s1 w = Some m \<and> val_ctx m = ctx"
      by (auto simp: new_tracked_value_Inr_iff)
    with tracks_vals_other [OF tracks_Cons.hyps(2) False] a show ?thesis by simp
  qed
qed

lemma tracks_live: "tracks s ctx ws s' \<Longrightarrow> ws \<noteq> [] \<Longrightarrow> \<exists>c x. ctx = Some c \<and> ctxs s c = Some x"
  by (induction rule: tracks.induct) (auto simp: new_tracked_value_Inr_iff)

lemma tracks_ctxs:
  "tracks s ctx ws s' \<Longrightarrow>
     ctxs s' c =
       map_option (\<lambda>x. if ctx = Some c then x\<lparr>ctx_vals := ctx_vals x @ ws\<rparr> else x) (ctxs s c)"
proof (induction rule: tracks.induct)
  case (tracks_Nil s ctx)
  then show ?case by (cases "ctxs s c") simp_all
next
  case (tracks_Cons isolate ctx x s w s1 ws s')
  from tracks_Cons.hyps(1) obtain c0 x0 where c0: "ctx = Some c0" "ctxs s c0 = Some x0"
    and s1: "ctxs s1 = (ctxs s)(c0 \<mapsto> x0\<lparr>ctx_vals := ctx_vals x0 @ [w]\<rparr>)"
    by (auto simp: new_tracked_value_Inr_iff)
  show ?case
    using tracks_Cons.IH c0 s1 by (cases "ctxs s c") auto
qed

lemma tracks_registry_of:
  "tracks s ctx ws s' \<Longrightarrow>
     registry_of s' c = registry_of s c @ (if ctx = Some c then ws else [])"
proof -
  assume t: "tracks s ctx ws s'"
  show ?thesis
  proof (cases "ctxs s c")
    case None
    with tracks_live [OF t] have "ctx = Some c \<longrightarrow> ws = []"
      by (cases "ws = []") auto
    with None tracks_ctxs [OF t, of c] show ?thesis by (auto simp: registry_of_def)
  next
    case (Some x)
    with tracks_ctxs [OF t, of c] show ?thesis by (auto simp: registry_of_def)
  qed
qed

lemma tracks_registry_inv:
  assumes inv: "registry_inv s" and t: "tracks s ctx ws s'"
  shows "registry_inv s'"
proof -
  note na = tracks_next_addr [OF t]
  have old_lt: "v < next_addr s" if "vals s v = Some m" for v m
    using inv that by (auto simp: registry_inv_def)
  have old_notin: "v \<notin> set ws" if "vals s v = Some m" for v m
    using old_lt [OF that] tracks_set [OF t, of v] by simp
  have part1: "v < next_addr s'
      \<and> (\<exists>c x. val_ctx m = Some c \<and> ctxs s' c = Some x \<and> v \<in> set (ctx_vals x))"
    if v: "vals s' v = Some m" for v m
  proof (cases "v \<in> set ws")
    case True
    then have ne: "ws \<noteq> []" by auto
    from tracks_live [OF t ne] obtain c x where c: "ctx = Some c" "ctxs s c = Some x" by auto
    from tracks_vals_new [OF t True] v have "val_ctx m = ctx" by auto
    moreover have "ctxs s' c = Some (x\<lparr>ctx_vals := ctx_vals x @ ws\<rparr>)"
      using tracks_ctxs [OF t, of c] c by simp
    ultimately show ?thesis using True c tracks_set [OF t, of v] by auto
  next
    case False
    with tracks_vals_other [OF t False] v have vs: "vals s v = Some m" by simp
    with inv obtain c x where c: "val_ctx m = Some c" "ctxs s c = Some x" "v \<in> set (ctx_vals x)"
      unfolding registry_inv_def by blast
    have "\<exists>x'. ctxs s' c = Some x' \<and> v \<in> set (ctx_vals x')"
      using tracks_ctxs [OF t, of c] c by auto
    with c old_lt [OF vs] na show ?thesis by auto
  qed
  have part2: "c < next_addr s' \<and> distinct (ctx_vals x')
      \<and> (\<forall>v \<in> set (ctx_vals x'). \<exists>m. vals s' v = Some m \<and> val_ctx m = Some c)"
    if c: "ctxs s' c = Some x'" for c x'
  proof -
    from tracks_ctxs [OF t, of c] c obtain x where x: "ctxs s c = Some x"
      and x': "x' = (if ctx = Some c then x\<lparr>ctx_vals := ctx_vals x @ ws\<rparr> else x)"
      by (cases "ctxs s c") auto
    from inv x have lt: "c < next_addr s" and d: "distinct (ctx_vals x)"
      and reg: "\<forall>v \<in> set (ctx_vals x). \<exists>m. vals s v = Some m \<and> val_ctx m = Some c"
      by (auto simp: registry_inv_def)
    have disj: "set (ctx_vals x) \<inter> set ws = {}"
      using reg old_notin by blast
    have dws: "distinct ws"
      using tracks_addresses [OF t] by (metis distinct_upt)
    have olds: "\<exists>m. vals s' v = Some m \<and> val_ctx m = Some c" if "v \<in> set (ctx_vals x)" for v
    proof -
      from reg that obtain m where m: "vals s v = Some m" "val_ctx m = Some c" by auto
      from tracks_vals_other [OF t old_notin [OF m(1)]] m show ?thesis by simp
    qed
    have news: "\<exists>m. vals s' v = Some m \<and> val_ctx m = Some c"
      if "v \<in> set ws" "ctx = Some c" for v
      using tracks_vals_new [OF t that(1)] that(2) by simp
    show ?thesis
      using lt na d dws disj olds news x' by (auto split: if_splits)
  qed
  show ?thesis
    unfolding registry_inv_def using part1 part2 by blast
qed

lemma count_list_distinct: "distinct xs \<Longrightarrow> x \<in> set xs \<Longrightarrow> count_list xs x = 1"
  by (induction xs) auto

lemma registry_inv_registered:
  assumes inv: "registry_inv s" and v: "vals s w = Some m" and c: "val_ctx m = Some c"
  shows "registered_in s w c"
proof -
  from inv v c obtain x where x: "ctxs s c = Some x" "w \<in> set (ctx_vals x)"
    by (fastforce simp: registry_inv_def)
  from inv x have "distinct (ctx_vals x)" by (auto simp: registry_inv_def)
  with x have cnt: "count_list (ctx_vals x) w = 1" by (simp add: count_list_distinct)
  have uniq: "c' = c" if "ctxs s c' = Some x'" "w \<in> set (ctx_vals x')" for c' x'
  proof -
    from inv that obtain m' where "vals s w = Some m'" "val_ctx m' = Some c'"
      by (fastforce simp: registry_inv_def)
    with v c show ?thesis by simp
  qed
  show ?thesis
    unfolding registered_in_def using v c x cnt uniq by blast
qed

lemma tracks_registered:
  assumes inv: "registry_inv s" and t: "tracks s (Some c) ws s'" and w: "w \<in> set ws"
  shows "registered_in s' w c \<and> vals s w = None"
proof -
  from tracks_vals_new [OF t w] obtain m where m: "vals s' w = Some m" "val_ctx m = Some c"
    by auto
  have "registered_in s' w c"
    by (rule registry_inv_registered [OF tracks_registry_inv [OF inv t] m])
  moreover have "vals s w = None"
  proof (cases "vals s w")
    case None then show ?thesis .
  next
    case (Some m0)
    with inv have "w < next_addr s" by (auto simp: registry_inv_def)
    with tracks_set [OF t, of w] w show ?thesis by simp
  qed
  ultimately show ?thesis ..
qed

lemma creates_tracks: "creates s w c s' \<Longrightarrow> \<exists>ws. tracks s (Some c) ws s' \<and> w \<in> set ws"
proof (induction rule: creates.induct)
  case (c_ObjectTemplateNewInstance ptr c e_obj tc s r s' w)
  from ObjectTemplateNewInstance_tracks [OF this(1)] this(2) show ?case by auto
next
  case (c_FunctionTemplateGetFunction ptr c e_fn tc s r s' w)
  from FunctionTemplateGetFunction_tracks [OF this(1)] this(2) show ?case by auto
next
  case (c_FunctionTemplateCallback info ctx_ref goContext c s ws s' w)
  from wrap_this_and_args_tracks [OF this(3)] this(2,4) show ?case by auto
next
  case (c_RunScript c e_src e_ogn e_script e_result tc s r s' w)
  from RunScript_tracks [OF this(1)] this(2) show ?case by auto
next
  case (c_JSONParse c e_str e_result tc s r s' w)
  from JSONParse_tracks [OF this(1)] this(2) show ?case by auto
next
  case (c_ContextGlobal c s w s')
  from ContextGlobal_tracks [OF this(1)] show ?case by auto
next
  case (c_NewPromiseResolver c e_resolver tc s r s' w)
  from NewPromiseResolver_tracks [OF this(1)] this(2) show ?case by auto
next
  case (c_ValueToObject ptr e_obj tc s r s' w c)
  from ValueToObject_tracks [OF this(1)] this(2,3) show ?case by auto
next
  case (c_ObjectGet ptr e_key e_result tc s r s' w c)
  from ObjectGet_tracks [OF this(1)] this(2,3) show ?case by auto
next
  case (c_ObjectGetAnyKey ptr key e_result tc s r s' w c)
  from ObjectGetAnyKey_tracks [OF this(1)] this(2,3) show ?case by auto
next
  case (c_ObjectGetIdx ptr idx e_result tc s r s' w c)
  from ObjectGetIdx_tracks [OF this(1)] this(2,3) show ?case by auto
next
  case (c_PromiseResolverGetPromise ptr e_promise s w s' c)
  from PromiseResolverGetPromise_tracks [OF this(1)] this(2) show ?case by auto
next
  case (c_PromiseThen ptr callback_ref e_func e_result tc s r s' w c)
  from PromiseThen_tracks [OF this(1)] this(2,3) show ?case by auto
next
  case (c_PromiseThen2 ptr ref1 ref2 e_f1 e_f2 e_result tc s r s' w c)
  from PromiseThen2_tracks [OF this(1)] this(2,3) show ?case by auto
next
  case (c_PromiseCatch ptr callback_ref e_func e_result tc s r s' w c)
  from PromiseCatch_tracks [OF this(1)] this(2,3) show ?case by auto
next
  case (c_PromiseResult ptr e_result s w s' c)
  from PromiseResult_tracks [OF this(1)] this(2) show ?case by auto
next
  case (c_FunctionCall ptr recv args e_result tc s r s' w c)
  from FunctionCall_tracks [OF this(1)] this(2,3) show ?case by auto
next
  case (c_FunctionNewInstance ptr args e_result tc s r s' w c)
  from FunctionNewInstance_tracks [OF this(1)] this(2,3) show ?case by auto
next
  case (c_FunctionSourceMapUrl ptr e_result s w s' c)
  from FunctionSourceMapUrl_tracks [OF this(1)] this(2) show ?case by auto
next
  case (c_NewValueInteger isolate v32 s w s' c)
  from NewValueInteger_tracks [OF this(1)] this(2) show ?case by auto
next
  case (c_NewValueIntegerFromUnsigned isolate v32 s w s' c)
  from NewValueIntegerFromUnsigned_tracks [OF this(1)] this(2) show ?case by auto
next
  case (c_NewValueString isolate e_str tc s r s' w c)
  from NewValueString_tracks [OF this(1)] this(2,3) show ?case by auto
next
  case (c_NewValueNull isolate s w s' c)
  from NewValueNull_tracks [OF this(1)] this(2) show ?case by auto
next
  case (c_NewValueUndefined isolate s w s' c)
  from NewValueUndefined_tracks [OF this(1)] this(2) show ?case by auto
next
  case (c_NewValueBoolean isolate v32 s w s' c)
  from NewValueBoolean_tracks [OF this(1)] this(2) show ?case by auto
next
  case (c_NewValueNumber isolate v64 s w s' c)
  from NewValueNumber_tracks [OF this(1)] this(2) show ?case by auto
next
  case (c_NewValueBigInt isolate v64 s w s' c)
  from NewValueBigInt_tracks [OF this(1)] this(2) show ?case by auto
next
  case (c_NewValueBigIntFromUnsigned isolate v64 s w s' c)
  from NewValueBigIntFromUnsigned_tracks [OF this(1)] this(2) show ?case by auto
next
  case (c_NewValueBigIntFromWords isolate e_bigint tc s r s' w c)
  from NewValueBigIntFromWords_tracks [OF this(1)] this(2,3) show ?case by auto
next
  case (c_NewValueError E isolate idx e_msg s w s' c)
  from NewValueError_tracks [OF this(1)] this(2) show ?case by auto
next
  case (c_BuiltinSymbol E' isolate idx s w s' c)
  from BuiltinSymbol_tracks [OF this(1)] this(2) show ?case by auto
qed

lemma registry_inv_empty: "registry_inv empty_store"
  by (simp add: registry_inv_def empty_store_def)

lemma registry_inv_example: "registry_inv example_store"
  by (auto simp: registry_inv_def example_store_def split: if_splits)

section \<open>Every created wrapper is registered in the sandbox in scope\<close>

text \<open>
  Claim C3. In a store where every wrapper belongs to exactly one registry, whenever an
  operation returns a new wrapper the invariant still holds afterwards and the wrapper,
  which did not exist before, stands exactly once in the registry of the sandbox in
  scope and in no other: the context argument (run script, global, template
  instantiation, new resolver, JSON parse), the sandbox of the wrapper operated on
  (object get, promise operations, function call, to-object), the sandbox the Callback
  Bridge recovered, or, for the constructors that take only an isolate and for the
  built-in symbols, the isolate's default sandbox.
\<close>

theorem C3_created_wrappers_registered:
  "registry_inv s \<and> creates s w c s' \<longrightarrow>
     registry_inv s' \<and> registered_in s' w c \<and> vals s w = None"
proof (intro impI, elim conjE)
  assume inv: "registry_inv s" and cr: "creates s w c s'"
  from creates_tracks [OF cr] obtain ws where t: "tracks s (Some c) ws s'" and w: "w \<in> set ws"
    by auto
  from tracks_registry_inv [OF inv t] tracks_registered [OF inv t w]
  show "registry_inv s' \<and> registered_in s' w c \<and> vals s w = None" by simp
qed

theorem C3_created_wrappers_registered_witness:
  "registry_inv example_store
   \<and> creates example_store 6 1
        (example_store\<lparr>vals := (vals example_store)
                 (6 \<mapsto> \<lparr>val_iso = 0, val_ctx = Some 1, val_ptr = Some (Integer 42)\<rparr>),
            next_addr := 7,
            ctxs := [1 \<mapsto> \<lparr>ctx_iso = 0, ctx_vals = [4, 5, 6],
                          ctx_ptr = Some \<lparr>EmbedderData1 = None, Global = Object 0\<rparr>\<rparr>]\<rparr>)
   \<and> registered_in
        (example_store\<lparr>vals := (vals example_store)
                 (6 \<mapsto> \<lparr>val_iso = 0, val_ctx = Some 1, val_ptr = Some (Integer 42)\<rparr>),
            next_addr := 7,
            ctxs := [1 \<mapsto> \<lparr>ctx_iso = 0, ctx_vals = [4, 5, 6],
                          ctx_ptr = Some \<lparr>EmbedderData1 = None, Global = Object 0\<rparr>\<rparr>]\<rparr>) 6 1
   \<and> creates example_store 6 1
        (example_store\<lparr>vals := (vals example_store)
                 (6 \<mapsto> \<lparr>val_iso = 0, val_ctx = Some 1, val_ptr = Some (Object 0)\<rparr>),
            next_addr := 7,
            ctxs := [1 \<mapsto> \<lparr>ctx_iso = 0, ctx_vals = [4, 5, 6],
                          ctx_ptr = Some \<lparr>EmbedderData1 = None, Global = Object 0\<rparr>\<rparr>]\<rparr>)
   \<and> registered_in
        (example_store\<lparr>vals := (vals example_store)
                 (6 \<mapsto> \<lparr>val_iso = 0, val_ctx = Some 1, val_ptr = Some (Object 0)\<rparr>),
            next_addr := 7,
            ctxs := [1 \<mapsto> \<lparr>ctx_iso = 0, ctx_vals = [4, 5, 6],
                          ctx_ptr = Some \<lparr>EmbedderData1 = None, Global = Object 0\<rparr>\<rparr>]\<rparr>) 6 1
   \<and> creates example_store 6 1
        (example_store\<lparr>vals := (vals example_store)
                 (6 \<mapsto> \<lparr>val_iso = 0, val_ctx = Some 1, val_ptr = Some (Object 8)\<rparr>),
            next_addr := 7,
            ctxs := [1 \<mapsto> \<lparr>ctx_iso = 0, ctx_vals = [4, 5, 6],
                          ctx_ptr = Some \<lparr>EmbedderData1 = None, Global = Object 0\<rparr>\<rparr>]\<rparr>)
   \<and> registered_in
        (example_store\<lparr>vals := (vals example_store)
                 (6 \<mapsto> \<lparr>val_iso = 0, val_ctx = Some 1, val_ptr = Some (Object 8)\<rparr>),
            next_addr := 7,
            ctxs := [1 \<mapsto> \<lparr>ctx_iso = 0, ctx_vals = [4, 5, 6],
                          ctx_ptr = Some \<lparr>EmbedderData1 = None, Global = Object 0\<rparr>\<rparr>]\<rparr>) 6 1"
proof -
  let ?s = "\<lambda>h. example_store\<lparr>vals := (vals example_store)
                 (6 \<mapsto> \<lparr>val_iso = 0, val_ctx = Some 1, val_ptr = Some h\<rparr>),
            next_addr := 7,
            ctxs := [1 \<mapsto> \<lparr>ctx_iso = 0, ctx_vals = [4, 5, 6],
                          ctx_ptr = Some \<lparr>EmbedderData1 = None, Global = Object 0\<rparr>\<rparr>]\<rparr>"
  have run1: "NewValueInteger (Some 0) 42 example_store = Inr (6, ?s (Integer 42))"
    by (simp add: NewValueInteger_def ISOLATE_SCOPE_INTERNAL_CONTEXT_def ISOLATE_SCOPE_def
        isolateInternalContext_def new_tracked_value_def new_m_value_def tracked_value_def
        bnd_def deref_def example_store_def)
  have ds: "default_sandbox example_store (Some 0) = Some 1"
    by (simp add: default_sandbox_def example_store_def)
  have cr1: "creates example_store 6 1 (?s (Integer 42))"
    by (rule c_NewValueInteger [OF run1 ds])
  have run2: "ContextGlobal (Some 1) example_store = Inr (6, ?s (Object 0))"
    by (simp add: ContextGlobal_def LOCAL_CONTEXT_def ISOLATE_SCOPE_def nonempty_def
        new_tracked_value_def new_m_value_def tracked_value_def
        bnd_def deref_def example_store_def)
  have cr2: "creates example_store 6 1 (?s (Object 0))"
    by (rule c_ContextGlobal [OF run2])
  have run3: "ObjectGetIdx (Some 5) 0 (Some (Object 8))
      \<lparr>HasTerminated = False, Exception = None, Message = None, StackTrace = None\<rparr>
      example_store = Inr (\<lparr>rtn_value = Some 6, rtn_error = no_error\<rparr>, ?s (Object 8))"
    by (simp add: ObjectGetIdx_def LOCAL_VALUE_def ISOLATE_SCOPE_def nonempty_def
        rtn_tracked_def new_tracked_value_def new_m_value_def tracked_value_def
        bnd_def deref_def example_store_def)
  have vs: "value_sandbox example_store (Some 5) = Some 1"
    by (simp add: value_sandbox_def example_store_def)
  have cr3: "creates example_store 6 1 (?s (Object 8))"
    by (rule c_ObjectGetIdx [OF run3 _ vs]) simp
  from C3_created_wrappers_registered [of example_store 6 1 "?s (Integer 42)"]
    C3_created_wrappers_registered [of example_store 6 1 "?s (Object 0)"]
    C3_created_wrappers_registered [of example_store 6 1 "?s (Object 8)"]
    registry_inv_example cr1 cr2 cr3
  show ?thesis by simp
qed

section \<open>Steps of the bridge and the registries\<close>

lemma ContextFree_Inr_cases:
  assumes "ContextFree ctx s = Inr s'"
  shows "(ctx = None \<and> s' = s)
       \<or> (\<exists>c x. ctx = Some c \<and> ctxs s c = Some x
              \<and> s' = s\<lparr>vals := vals s |` (- set (ctx_vals x)),
                        trace := trace s @ [ResetContext c] @ released_values (ctx_vals x)
                                   @ [DeleteContext c],
                        ctxs := (ctxs s)(c := None)\<rparr>)"
proof (cases ctx)
  case None
  with assms show ?thesis by (simp add: ContextFree_def)
next
  case (Some c)
  with assms obtain x s1 where x: "ctxs s c = Some x"
    and r: "release_values (ctx_vals x) (s\<lparr>trace := trace s @ [ResetContext c]\<rparr>) = Inr s1"
    and s': "s' = s1\<lparr>ctxs := (ctxs s1)(c := None), trace := trace s1 @ [DeleteContext c]\<rparr>"
    by (auto simp: ContextFree_def bnd_Inr_iff deref_Inr_iff)
  from release_values_Inr_live [OF r]
  have d: "distinct (ctx_vals x)" and l: "set (ctx_vals x) \<subseteq> dom (vals s)" by simp_all
  from release_values_live [of "ctx_vals x" "s\<lparr>trace := trace s @ [ResetContext c]\<rparr>"] d l r
  have "s1 = s\<lparr>trace := trace s @ [ResetContext c]\<rparr>
              \<lparr>vals := vals s |` (- set (ctx_vals x)),
               trace := (trace s @ [ResetContext c]) @ released_values (ctx_vals x)\<rparr>"
    by simp
  with s' x Some show ?thesis by simp
qed

lemma registry_inv_ctx_lt: "registry_inv s \<Longrightarrow> ctxs s c = Some x \<Longrightarrow> c < next_addr s"
  unfolding registry_inv_def by blast

text \<open>The effect of a step on the sandboxes: how far the allocator moved, which sandboxes are
  live afterwards, and what became of their registries.\<close>

lemma tracks_step:
  assumes inv: "registry_inv s" and t: "tracks s ctx ws s'"
  shows "registry_inv s' \<and> next_addr s \<le> next_addr s'
       \<and> (\<forall>c. ctxs s' c \<noteq> None \<longrightarrow>
              ctxs s c \<noteq> None \<and> prefix (registry_of s c) (registry_of s' c))"
  using tracks_registry_inv [OF inv t] tracks_next_addr [OF t] tracks_ctxs [OF t]
    tracks_registry_of [OF t]
  by auto

lemma frame_step:
  assumes inv: "registry_inv s" and "ctxs s' = ctxs s" and "vals s' = vals s"
    and "next_addr s \<le> next_addr s'"
  shows "registry_inv s' \<and> next_addr s \<le> next_addr s'
       \<and> (\<forall>c. ctxs s' c \<noteq> None \<longrightarrow>
              ctxs s c \<noteq> None \<and> prefix (registry_of s c) (registry_of s' c))"
  using assms by (fastforce simp: registry_inv_def registry_of_def)

lemma new_ctx_step:
  assumes inv: "registry_inv s" and n: "next_addr s \<le> a" "a < next_addr s'"
    and c: "ctxs s' = (ctxs s)(a \<mapsto> x)" "ctx_vals x = []" and v: "vals s' = vals s"
  shows "registry_inv s' \<and> next_addr s \<le> next_addr s'
       \<and> (\<forall>c. ctxs s' c \<noteq> None \<longrightarrow>
              (ctxs s c \<noteq> None \<and> prefix (registry_of s c) (registry_of s' c))
              \<or> (ctxs s c = None \<and> next_addr s \<le> c))"
proof -
  have fresh: "ctxs s a = None"
  proof (cases "ctxs s a")
    case None then show ?thesis .
  next
    case (Some x0)
    from registry_inv_ctx_lt [OF inv Some] n show ?thesis by simp
  qed
  have "registry_inv s'"
    unfolding registry_inv_def
  proof (intro conjI allI impI)
    fix v m assume "vals s' v = Some m"
    with v inv obtain c0 x0 where "v < next_addr s" "val_ctx m = Some c0" "ctxs s c0 = Some x0"
      "v \<in> set (ctx_vals x0)"
      unfolding registry_inv_def by force
    with fresh c n show "v < next_addr s'" 
      and "\<exists>c x. val_ctx m = Some c \<and> ctxs s' c = Some x \<and> v \<in> set (ctx_vals x)"
      by auto
  next
    fix c0 x0 assume a0: "ctxs s' c0 = Some x0"
    show "c0 < next_addr s'"
    proof (cases "c0 = a")
      case True
      with n show ?thesis by simp
    next
      case False
      with a0 c have "ctxs s c0 = Some x0" by simp
      from registry_inv_ctx_lt [OF inv this] n show ?thesis by simp
    qed
    show "distinct (ctx_vals x0)" using a0 c inv by (auto simp: registry_inv_def split: if_splits)
    show "\<forall>v\<in>set (ctx_vals x0). \<exists>m. vals s' v = Some m \<and> val_ctx m = Some c0"
      using a0 c v inv by (auto simp: registry_inv_def split: if_splits)
  qed
  moreover have "\<forall>c. ctxs s' c \<noteq> None \<longrightarrow>
              (ctxs s c \<noteq> None \<and> prefix (registry_of s c) (registry_of s' c))
              \<or> (ctxs s c = None \<and> next_addr s \<le> c)"
    using c fresh n by (auto simp: registry_of_def)
  ultimately show ?thesis using n by simp
qed

lemma free_step:
  assumes inv: "registry_inv s" and f: "ContextFree ctx s = Inr s'"
  shows "registry_inv s' \<and> next_addr s' = next_addr s \<and> isos s' = isos s
       \<and> (\<forall>c. ctxs s' c \<noteq> None \<longrightarrow>
              ctxs s c \<noteq> None \<and> registry_of s' c = registry_of s c)"
proof -
  from ContextFree_Inr_cases [OF f] show ?thesis
  proof (elim disjE exE conjE)
    assume "ctx = None" "s' = s"
    with inv show ?thesis by simp
  next
    fix c x
    assume x: "ctxs s c = Some x"
      and s': "s' = s\<lparr>vals := vals s |` (- set (ctx_vals x)),
                        trace := trace s @ [ResetContext c] @ released_values (ctx_vals x)
                                   @ [DeleteContext c],
                        ctxs := (ctxs s)(c := None)\<rparr>"
    have own: "v \<in> set (ctx_vals x) \<longleftrightarrow> val_ctx m = Some c" if "vals s v = Some m" for v m
    proof
      assume "v \<in> set (ctx_vals x)"
      with inv x that show "val_ctx m = Some c" by (fastforce simp: registry_inv_def)
    next
      assume "val_ctx m = Some c"
      with inv x that show "v \<in> set (ctx_vals x)" by (fastforce simp: registry_inv_def)
    qed
    have "registry_inv s'"
      unfolding registry_inv_def
    proof (intro conjI allI impI)
      fix v m assume a: "vals s' v = Some m"
      with s' have vs: "vals s v = Some m" and notin: "v \<notin> set (ctx_vals x)"
        by (auto simp: restrict_map_def split: if_splits)
      from inv vs obtain c0 x0 where c0: "v < next_addr s" "val_ctx m = Some c0"
        "ctxs s c0 = Some x0" "v \<in> set (ctx_vals x0)"
        unfolding registry_inv_def by force
      from own [OF vs] notin c0 have "c0 \<noteq> c" by auto
      with c0 s' show "v < next_addr s'"
        and "\<exists>c x. val_ctx m = Some c \<and> ctxs s' c = Some x \<and> v \<in> set (ctx_vals x)"
        by auto
    next
      fix c0 x0 assume a0: "ctxs s' c0 = Some x0"
      with s' have ne: "c0 \<noteq> c" and old: "ctxs s c0 = Some x0" by (auto split: if_splits)
      show "c0 < next_addr s'" using old inv s' by (auto simp: registry_inv_def)
      show "distinct (ctx_vals x0)" using old inv by (auto simp: registry_inv_def)
      show "\<forall>v\<in>set (ctx_vals x0). \<exists>m. vals s' v = Some m \<and> val_ctx m = Some c0"
      proof
        fix v assume "v \<in> set (ctx_vals x0)"
        with inv old obtain m where m: "vals s v = Some m" "val_ctx m = Some c0"
          by (fastforce simp: registry_inv_def)
        with own [OF m(1)] ne have "v \<notin> set (ctx_vals x)" by auto
        with m s' show "\<exists>m. vals s' v = Some m \<and> val_ctx m = Some c0"
          by (auto simp: restrict_map_def)
      qed
    qed
    moreover have "\<forall>c0. ctxs s' c0 \<noteq> None \<longrightarrow>
              ctxs s c0 \<noteq> None \<and> registry_of s' c0 = registry_of s c0"
      using s' by (auto simp: registry_of_def)
    ultimately show ?thesis using s' by simp
  qed
qed

lemma template_frames:
  "TemplateFreeWrapper tmpl s = Inr s' \<Longrightarrow>
     ctxs s' = ctxs s \<and> vals s' = vals s \<and> next_addr s \<le> next_addr s'"
  "TemplateSetValue ptr e_name val attrs s = Inr s' \<Longrightarrow>
     ctxs s' = ctxs s \<and> vals s' = vals s \<and> next_addr s \<le> next_addr s'"
  "TemplateSetAnyValue ptr key val attrs s = Inr (b, s') \<Longrightarrow>
     ctxs s' = ctxs s \<and> vals s' = vals s \<and> next_addr s \<le> next_addr s'"
  "TemplateSetTemplate ptr e_name obj attrs s = Inr s' \<Longrightarrow>
     ctxs s' = ctxs s \<and> vals s' = vals s \<and> next_addr s \<le> next_addr s'"
  "TemplateSetAnyTemplate ptr key obj attrs s = Inr (b, s') \<Longrightarrow>
     ctxs s' = ctxs s \<and> vals s' = vals s \<and> next_addr s \<le> next_addr s'"
  "NewObjectTemplate isolate s = Inr (t, s') \<Longrightarrow>
     ctxs s' = ctxs s \<and> vals s' = vals s \<and> next_addr s \<le> next_addr s'"
  "NewFunctionTemplate isolate callback_ref s = Inr (t, s') \<Longrightarrow>
     ctxs s' = ctxs s \<and> vals s' = vals s \<and> next_addr s \<le> next_addr s'"
  by (auto simp: TemplateFreeWrapper_def TemplateSetValue_def TemplateSetAnyValue_def
      TemplateSetTemplate_def TemplateSetAnyTemplate_def NewObjectTemplate_def
      NewFunctionTemplate_def Template_Set_def new_m_template_def Let_def bnd_Inr_iff
      split: if_splits)

lemma NewIsolate_step:
  assumes inv: "registry_inv s" and n: "NewIsolate e_context s = (i, s')"
  shows "registry_inv s' \<and> next_addr s \<le> next_addr s'
       \<and> (\<forall>c. ctxs s' c \<noteq> None \<longrightarrow>
              (ctxs s c \<noteq> None \<and> prefix (registry_of s c) (registry_of s' c))
              \<or> (ctxs s c = None \<and> next_addr s \<le> c))"
proof (rule new_ctx_step [OF inv, where a = "Suc (next_addr s)"
      and x = "\<lparr>ctx_iso = next_addr s, ctx_vals = [], ctx_ptr = Some e_context\<rparr>"])
  show "next_addr s \<le> Suc (next_addr s)" by simp
  show "Suc (next_addr s) < next_addr s'" using n by (auto simp: NewIsolate_def Let_def)
  show "ctxs s' = (ctxs s)(Suc (next_addr s) \<mapsto>
      \<lparr>ctx_iso = next_addr s, ctx_vals = [], ctx_ptr = Some e_context\<rparr>)"
    using n by (auto simp: NewIsolate_def Let_def)
  show "ctx_vals \<lparr>ctx_iso = next_addr s, ctx_vals = [], ctx_ptr = Some e_context\<rparr> = []"
    by simp
  show "vals s' = vals s" using n by (auto simp: NewIsolate_def Let_def)
qed

lemma NewContext_step:
  assumes inv: "registry_inv s"
    and n: "NewContext isolate global_template_ptr ref e_global s = Inr (c, s')"
  shows "registry_inv s' \<and> next_addr s \<le> next_addr s'
       \<and> (\<forall>c. ctxs s' c \<noteq> None \<longrightarrow>
              (ctxs s c \<noteq> None \<and> prefix (registry_of s c) (registry_of s' c))
              \<or> (ctxs s c = None \<and> next_addr s \<le> c))"
proof -
  from n obtain i where s': "s' = s\<lparr>ctxs := (ctxs s)(next_addr s \<mapsto>
        \<lparr>ctx_iso = i, ctx_vals = [],
         ctx_ptr = Some \<lparr>EmbedderData1 = Some ref, Global = e_global\<rparr>\<rparr>),
      next_addr := Suc (next_addr s)\<rparr>"
    by (auto simp: NewContext_def Let_def bnd_Inr_iff)
  show ?thesis
    by (rule new_ctx_step [OF inv, where a = "next_addr s"
          and x = "\<lparr>ctx_iso = i, ctx_vals = [],
                    ctx_ptr = Some \<lparr>EmbedderData1 = Some ref, Global = e_global\<rparr>\<rparr>"])
       (simp_all add: s')
qed

lemma IsolateDispose_step:
  assumes inv: "registry_inv s" and d: "IsolateDispose isolate s = Inr s'"
  shows "registry_inv s' \<and> next_addr s \<le> next_addr s'
       \<and> (\<forall>c. ctxs s' c \<noteq> None \<longrightarrow>
              ctxs s c \<noteq> None \<and> prefix (registry_of s c) (registry_of s' c))"
proof (cases isolate)
  case None
  with d inv show ?thesis by (simp add: IsolateDispose_def)
next
  case (Some i)
  with d obtain ctx s1 where f: "ContextFree ctx s = Inr s1"
    and s': "s' = s1\<lparr>isos := (isos s1)(i := None), trace := trace s1 @ [DisposeIsolate i]\<rparr>"
    by (auto simp: IsolateDispose_def bnd_Inr_iff)
  from free_step [OF inv f] have a: "registry_inv s1" "next_addr s1 = next_addr s"
    and b: "\<forall>c. ctxs s1 c \<noteq> None \<longrightarrow> ctxs s c \<noteq> None \<and> registry_of s1 c = registry_of s c"
    by simp_all
  from a(1) have "registry_inv s'" by (simp add: s' registry_inv_def)
  moreover have "\<forall>c. ctxs s' c \<noteq> None \<longrightarrow>
              ctxs s c \<noteq> None \<and> prefix (registry_of s c) (registry_of s' c)"
    using b by (simp add: s' registry_of_def)
  ultimately show ?thesis using a(2) by (simp add: s')
qed

lemma api_step_effect:
  assumes inv: "registry_inv s" and st: "api_step s s'"
  shows "registry_inv s' \<and> next_addr s \<le> next_addr s'
       \<and> (\<forall>c. ctxs s' c \<noteq> None \<longrightarrow>
              (ctxs s c \<noteq> None \<and> prefix (registry_of s c) (registry_of s' c))
              \<or> (ctxs s c = None \<and> next_addr s \<le> c))"
proof -
  have T: ?thesis if "tracks s ctx ws s'" for ctx ws
    using tracks_step [OF inv that] by blast
  have F: ?thesis if "ctxs s' = ctxs s \<and> vals s' = vals s \<and> next_addr s \<le> next_addr s'"
    using frame_step [OF inv] that by blast
  from st show ?thesis
  proof (cases rule: api_step.cases)
    case (s_NewIsolate e_context i)
    then show ?thesis using NewIsolate_step [OF inv] by blast
  next
    case (s_IsolateDispose isolate)
    then show ?thesis using IsolateDispose_step [OF inv] by blast
  next
    case (s_TemplateFreeWrapper tmpl)
    from F [OF template_frames(1) [OF this]] show ?thesis .
  next
    case (s_TemplateSetValue ptr e_name val attrs)
    from F [OF template_frames(2) [OF this]] show ?thesis .
  next
    case (s_TemplateSetAnyValue ptr key val attrs b)
    from F [OF template_frames(3) [OF this]] show ?thesis .
  next
    case (s_TemplateSetTemplate ptr e_name obj attrs)
    from F [OF template_frames(4) [OF this]] show ?thesis .
  next
    case (s_TemplateSetAnyTemplate ptr key obj attrs b)
    from F [OF template_frames(5) [OF this]] show ?thesis .
  next
    case (s_NewObjectTemplate isolate t)
    from F [OF template_frames(6) [OF this]] show ?thesis .
  next
    case (s_NewFunctionTemplate isolate callback_ref t)
    from F [OF template_frames(7) [OF this]] show ?thesis .
  next
    case (s_ObjectTemplateNewInstance ptr ctx e_obj tc r)
    from T [OF ObjectTemplateNewInstance_tracks [OF this]] show ?thesis .
  next
    case (s_FunctionTemplateGetFunction ptr ctx e_fn tc r)
    from T [OF FunctionTemplateGetFunction_tracks [OF this]] show ?thesis .
  next
    case (s_FunctionTemplateCallback isolate ctx info ws)
    from T [OF wrap_this_and_args_tracks [OF this]] show ?thesis .
  next
    case (s_NewContext isolate global_template_ptr ref e_global c)
    then show ?thesis using NewContext_step [OF inv] by blast
  next
    case (s_ContextFree ctx)
    from free_step [OF inv this] show ?thesis by auto
  next
    case (s_RunScript ctx e_src e_ogn e_script e_result tc r)
    from T [OF RunScript_tracks [OF this]] show ?thesis .
  next
    case (s_JSONParse ctx e_str e_result tc r)
    from T [OF JSONParse_tracks [OF this]] show ?thesis .
  next
    case (s_ContextGlobal ctx w)
    from T [OF ContextGlobal_tracks [OF this]] show ?thesis .
  next
    case (s_NewValueInteger isolate v32 w)
    from T [OF NewValueInteger_tracks [OF this]] show ?thesis .
  next
    case (s_NewValueIntegerFromUnsigned isolate v32 w)
    from T [OF NewValueIntegerFromUnsigned_tracks [OF this]] show ?thesis .
  next
    case (s_NewValueString isolate e_str tc r)
    from T [OF NewValueString_tracks [OF this]] show ?thesis .
  next
    case (s_NewValueNull isolate w)
    from T [OF NewValueNull_tracks [OF this]] show ?thesis .
  next
    case (s_NewValueUndefined isolate w)
    from T [OF NewValueUndefined_tracks [OF this]] show ?thesis .
  next
    case (s_NewValueBoolean isolate v32 w)
    from T [OF NewValueBoolean_tracks [OF this]] show ?thesis .
  next
    case (s_NewValueNumber isolate v64 w)
    from T [OF NewValueNumber_tracks [OF this]] show ?thesis .
  next
    case (s_NewValueBigInt isolate v64 w)
    from T [OF NewValueBigInt_tracks [OF this]] show ?thesis .
  next
    case (s_NewValueBigIntFromUnsigned isolate v64 w)
    from T [OF NewValueBigIntFromUnsigned_tracks [OF this]] show ?thesis .
  next
    case (s_NewValueBigIntFromWords isolate e_bigint tc r)
    from T [OF NewValueBigIntFromWords_tracks [OF this]] show ?thesis .
  next
    case (s_NewValueError E isolate idx e_msg p)
    from T [OF NewValueError_tracks [OF this]] show ?thesis .
  next
    case (s_ValueToObject ptr e_obj tc r)
    from T [OF ValueToObject_tracks [OF this]] show ?thesis .
  next
    case (s_ObjectGet ptr e_key e_result tc r)
    from T [OF ObjectGet_tracks [OF this]] show ?thesis .
  next
    case (s_ObjectGetAnyKey ptr key e_result tc r)
    from T [OF ObjectGetAnyKey_tracks [OF this]] show ?thesis .
  next
    case (s_ObjectGetIdx ptr idx e_result tc r)
    from T [OF ObjectGetIdx_tracks [OF this]] show ?thesis .
  next
    case (s_BuiltinSymbol E' isolate idx p)
    from T [OF BuiltinSymbol_tracks [OF this]] show ?thesis .
  next
    case (s_NewPromiseResolver ctx e_resolver tc r)
    from T [OF NewPromiseResolver_tracks [OF this]] show ?thesis .
  next
    case (s_PromiseResolverGetPromise ptr e_promise w)
    from T [OF PromiseResolverGetPromise_tracks [OF this]] show ?thesis .
  next
    case (s_PromiseThen ptr callback_ref e_func e_result tc r)
    from T [OF PromiseThen_tracks [OF this]] show ?thesis .
  next
    case (s_PromiseThen2 ptr ref1 ref2 e_f1 e_f2 e_result tc r)
    from T [OF PromiseThen2_tracks [OF this]] show ?thesis .
  next
    case (s_PromiseCatch ptr callback_ref e_func e_result tc r)
    from T [OF PromiseCatch_tracks [OF this]] show ?thesis .
  next
    case (s_PromiseResult ptr e_result w)
    from T [OF PromiseResult_tracks [OF this]] show ?thesis .
  next
    case (s_FunctionCall ptr recv args e_result tc r)
    from T [OF FunctionCall_tracks [OF this]] show ?thesis .
  next
    case (s_FunctionNewInstance ptr args e_result tc r)
    from T [OF FunctionNewInstance_tracks [OF this]] show ?thesis .
  next
    case (s_FunctionSourceMapUrl ptr e_result w)
    from T [OF FunctionSourceMapUrl_tracks [OF this]] show ?thesis .
  qed
qed

lemma run_effect:
  assumes run: "api_step\<^sup>*\<^sup>* s s'" and inv: "registry_inv s"
  shows "registry_inv s' \<and> next_addr s \<le> next_addr s'
       \<and> (\<forall>c. ctxs s c \<noteq> None \<and> ctxs s' c \<noteq> None \<longrightarrow>
              prefix (registry_of s c) (registry_of s' c))"
  using run
proof (induction rule: rtranclp_induct)
  case base
  with inv show ?case by simp
next
  case (step t u)
  then have invt: "registry_inv t" and le: "next_addr s \<le> next_addr t"
    and pre: "\<forall>c. ctxs s c \<noteq> None \<and> ctxs t c \<noteq> None \<longrightarrow>
                prefix (registry_of s c) (registry_of t c)"
    by simp_all
  from api_step_effect [OF invt step.hyps(2)]
  have invu: "registry_inv u" and le2: "next_addr t \<le> next_addr u"
    and eff: "\<forall>c. ctxs u c \<noteq> None \<longrightarrow>
              (ctxs t c \<noteq> None \<and> prefix (registry_of t c) (registry_of u c))
              \<or> (ctxs t c = None \<and> next_addr t \<le> c)"
    by simp_all
  have "prefix (registry_of s c) (registry_of u c)"
    if c: "ctxs s c \<noteq> None" "ctxs u c \<noteq> None" for c
  proof -
    from c(1) obtain x where "ctxs s c = Some x" by auto
    from registry_inv_ctx_lt [OF inv this] le have "c < next_addr t" by simp
    with eff c(2) have "ctxs t c \<noteq> None" "prefix (registry_of t c) (registry_of u c)"
      by fastforce+
    with pre c(1) show ?thesis by (blast intro: prefix_order.trans)
  qed
  with invu le le2 show ?case by simp
qed

lemma reachable_registry_inv: "api_step\<^sup>*\<^sup>* empty_store s \<Longrightarrow> registry_inv s"
  using run_effect [OF _ registry_inv_empty] by blast

text \<open>
  Claim C1. On a live sandbox \<open>tracked_value\<close> returns the wrapper it was given and
  changes nothing but that sandbox's registry, which becomes the old registry with the
  wrapper appended; every other registry stays as it was. And along any run of the
  bridge from a store that satisfies the registry invariant, a sandbox that is live at
  the start and at the end (addresses are not reused, so it lived throughout) has its
  starting registry as a prefix of its final one: no entry is removed, or moved, while
  the sandbox lives.
\<close>

theorem C1_track_appends_registry_grows:
  "(ctxs s c = Some x \<longrightarrow>
      tracked_value (Some c) v s =
        Inr (v, s\<lparr>ctxs := (ctxs s)(c \<mapsto> x\<lparr>ctx_vals := ctx_vals x @ [v]\<rparr>)\<rparr>))
   \<and> (tracked_value ctx v s = Inr (r, s1) \<longrightarrow>
        r = v
        \<and> (\<exists>c'. ctx = Some c' \<and> registry_of s1 c' = registry_of s c' @ [v]
              \<and> (\<forall>c''. c'' \<noteq> c' \<longrightarrow> registry_of s1 c'' = registry_of s c'')))
   \<and> (registry_inv s \<and> api_step\<^sup>*\<^sup>* s s' \<and> ctxs s c \<noteq> None \<and> ctxs s' c \<noteq> None \<longrightarrow>
        prefix (registry_of s c) (registry_of s' c))"
proof (intro conjI impI)
  assume "ctxs s c = Some x"
  then show "tracked_value (Some c) v s =
        Inr (v, s\<lparr>ctxs := (ctxs s)(c \<mapsto> x\<lparr>ctx_vals := ctx_vals x @ [v]\<rparr>)\<rparr>)"
    by (simp add: tracked_value_Inr_iff)
next
  assume a: "tracked_value ctx v s = Inr (r, s1)"
  then show "r = v" by (auto simp: tracked_value_Inr_iff)
  from a show "\<exists>c'. ctx = Some c' \<and> registry_of s1 c' = registry_of s c' @ [v]
              \<and> (\<forall>c''. c'' \<noteq> c' \<longrightarrow> registry_of s1 c'' = registry_of s c'')"
    by (auto simp: tracked_value_Inr_iff registry_of_def)
next
  assume "registry_inv s \<and> api_step\<^sup>*\<^sup>* s s' \<and> ctxs s c \<noteq> None \<and> ctxs s' c \<noteq> None"
  with run_effect [of s s'] show "prefix (registry_of s c) (registry_of s' c)" by blast
qed

theorem C1_track_appends_registry_grows_witness:
  "tracked_value (Some 1) 9 example_store =
     Inr (9, example_store\<lparr>ctxs := [1 \<mapsto> \<lparr>ctx_iso = 0, ctx_vals = [4, 5, 9],
                ctx_ptr = Some \<lparr>EmbedderData1 = None, Global = Object 0\<rparr>\<rparr>]\<rparr>)
   \<and> api_step\<^sup>*\<^sup>* example_store
        (example_store\<lparr>vals := (vals example_store)
                 (6 \<mapsto> \<lparr>val_iso = 0, val_ctx = Some 1, val_ptr = Some Null\<rparr>),
            next_addr := 7,
            ctxs := [1 \<mapsto> \<lparr>ctx_iso = 0, ctx_vals = [4, 5, 6],
                          ctx_ptr = Some \<lparr>EmbedderData1 = None, Global = Object 0\<rparr>\<rparr>]\<rparr>)
   \<and> prefix [4, 5] [4, 5, 6 :: nat]"
proof -
  let ?x = "\<lparr>ctx_iso = 0, ctx_vals = [4, 5],
             ctx_ptr = Some \<lparr>EmbedderData1 = None, Global = Object 0\<rparr>\<rparr>"
  let ?s1 = "example_store\<lparr>vals := (vals example_store)
                 (6 \<mapsto> \<lparr>val_iso = 0, val_ctx = Some 1, val_ptr = Some Null\<rparr>),
            next_addr := 7,
            ctxs := [1 \<mapsto> \<lparr>ctx_iso = 0, ctx_vals = [4, 5, 6],
                          ctx_ptr = Some \<lparr>EmbedderData1 = None, Global = Object 0\<rparr>\<rparr>]\<rparr>"
  have run: "NewValueNull (Some 0) example_store = Inr (6, ?s1)"
    by (simp add: NewValueNull_def ISOLATE_SCOPE_INTERNAL_CONTEXT_def ISOLATE_SCOPE_def
        isolateInternalContext_def new_tracked_value_def new_m_value_def tracked_value_def
        bnd_def deref_def example_store_def)
  have steps: "api_step\<^sup>*\<^sup>* example_store ?s1"
    by (rule r_into_rtranclp) (rule s_NewValueNull [OF run])
  have x: "ctxs example_store 1 = Some ?x" by (simp add: example_store_def)
  from C1_track_appends_registry_grows [of example_store 1 ?x 9 "Some 1" 9 example_store ?s1]
    registry_inv_example steps x
  show ?thesis by (simp add: registry_of_def example_store_def)
qed

section \<open>The Callback Bridge\<close>

lemma wrap_this_and_args_eq:
  "wrap_this_and_args i ctx info s = wrap_arguments i ctx (This info # Arguments info) s"
  by (simp add: wrap_this_and_args_def)

lemma wrap_arguments_total:
  "ctxs s c \<noteq> None \<Longrightarrow> \<exists>ws s'. wrap_arguments i (Some c) as s = Inr (ws, s')"
proof (induction as arbitrary: s)
  case Nil
  then show ?case by simp
next
  case (Cons a as)
  then obtain x where x: "ctxs s c = Some x" by auto
  let ?s1 = "s\<lparr>vals := (vals s)(next_addr s \<mapsto>
                 \<lparr>val_iso = i, val_ctx = Some c, val_ptr = Some a\<rparr>),
               next_addr := Suc (next_addr s),
               ctxs := (ctxs s)(c \<mapsto> x\<lparr>ctx_vals := ctx_vals x @ [next_addr s]\<rparr>)\<rparr>"
  have n: "new_tracked_value i (Some c) (Some a) s = Inr (next_addr s, ?s1)"
    using x by (simp add: new_tracked_value_Inr_iff)
  have "ctxs ?s1 c \<noteq> None" by simp
  from Cons.IH [OF this] obtain ws s' where "wrap_arguments i (Some c) as ?s1 = Inr (ws, s')"
    by auto
  with n show ?case by (simp add: bnd_def)
qed

lemma wrap_arguments_vals:
  "wrap_arguments i ctx as s = Inr (ws, s') \<Longrightarrow>
     length ws = length as
     \<and> (\<forall>k < length as.
           vals s' (ws ! k) = Some \<lparr>val_iso = i, val_ctx = ctx, val_ptr = Some (as ! k)\<rparr>)"
proof (induction as arbitrary: s ws)
  case Nil
  then show ?case by simp
next
  case (Cons a as)
  from Cons.prems obtain w s1 ws' where n: "new_tracked_value i ctx (Some a) s = Inr (w, s1)"
    and r: "wrap_arguments i ctx as s1 = Inr (ws', s')" and ws: "ws = w # ws'"
    by (auto simp: bnd_Inr_iff)
  from Cons.IH [OF r] have len: "length ws' = length as"
    and rest: "\<forall>k < length as.
           vals s' (ws' ! k) = Some \<lparr>val_iso = i, val_ctx = ctx, val_ptr = Some (as ! k)\<rparr>"
    by simp_all
  from n have w: "w = next_addr s" and n1: "next_addr s1 = Suc (next_addr s)"
    and v1: "vals s1 w = Some \<lparr>val_iso = i, val_ctx = ctx, val_ptr = Some a\<rparr>"
    by (auto simp: new_tracked_value_Inr_iff)
  have t: "tracks s1 ctx ws' s'" by (rule wrap_arguments_tracks [OF r])
  have "w \<notin> set ws'" using tracks_set [OF t, of w] w n1 by simp
  from tracks_vals_other [OF t this] v1
  have first: "vals s' w = Some \<lparr>val_iso = i, val_ctx = ctx, val_ptr = Some a\<rparr>" by simp
  have "vals s' (ws ! k) = Some \<lparr>val_iso = i, val_ctx = ctx, val_ptr = Some ((a # as) ! k)\<rparr>"
    if "k < length (a # as)" for k
    using that first rest ws by (cases k) simp_all
  with len ws show ?case by simp
qed

text \<open>
  Claim C4. When the engine invokes a host callback in a live isolate, from a context
  stamped with a reference that the host resolves to a live sandbox, with a receiver
  and \<open>n\<close> arguments, the bridge allocates \<open>n + 1\<close> wrappers at the next \<open>n + 1\<close>
  addresses (new ones, in a store that satisfies the registry invariant), one for the
  receiver and one for each argument in order, each tagged with that sandbox; it
  appends them in that order to the registry of that sandbox and to no other; it calls
  the host with the context reference, the callback reference stored with the function,
  these wrappers and \<open>n\<close>; and it sets the call's result to the handle of the wrapper
  the host returns, or to the engine's undefined value when the host returns null.
\<close>

theorem C4_callback_bridge:
  assumes iso: "isos s (GetIsolate info) \<noteq> None"
    and ref: "EmbedderData1 (GetCurrentContext info) = Some ctx_ref"
    and ctx: "goContext ctx_ref = Some c" and live: "ctxs s c \<noteq> None"
  shows "\<exists>ws s1.
      wrap_this_and_args (GetIsolate info) (Some c) info s = Inr (ws, s1)
    \<and> ws = [next_addr s ..< next_addr s + (length (Arguments info) + 1)]
    \<and> (\<forall>a. a \<notin> set ws \<longrightarrow> vals s1 a = vals s a)
    \<and> (\<forall>k \<le> length (Arguments info).
          vals s1 (ws ! k) =
            Some \<lparr>val_iso = GetIsolate info, val_ctx = Some c,
                  val_ptr = Some ((This info # Arguments info) ! k)\<rparr>)
    \<and> registry_of s1 c = registry_of s c @ ws
    \<and> (\<forall>c'. c' \<noteq> c \<longrightarrow> registry_of s1 c' = registry_of s c')
    \<and> (registry_inv s \<longrightarrow> (\<forall>a \<in> set ws. vals s a = None))
    \<and> FunctionTemplateCallback goContext goFunctionCallback info s =
        (case goFunctionCallback ctx_ref (Data info) ws (int (length (Arguments info))) s1 of
           (None, s2) \<Rightarrow> Inr (Some Undefined, s2)
         | (Some v, s2) \<Rightarrow>
             (case vals s2 v of
                None \<Rightarrow> Inl DanglingPointer
              | Some m \<Rightarrow> Inr (val_ptr m, s2)))"
proof -
  let ?i = "GetIsolate info" and ?as = "This info # Arguments info"
  from wrap_arguments_total [OF live, of ?i ?as] obtain ws s1
    where wa: "wrap_arguments ?i (Some c) ?as s = Inr (ws, s1)" by auto
  then have wt: "wrap_this_and_args ?i (Some c) info s = Inr (ws, s1)"
    by (simp add: wrap_this_and_args_eq)
  have t: "tracks s (Some c) ws s1" by (rule wrap_arguments_tracks [OF wa])
  from wrap_arguments_vals [OF wa] have len: "length ws = length (Arguments info) + 1"
    and vs: "\<forall>k < length ?as. vals s1 (ws ! k) =
            Some \<lparr>val_iso = ?i, val_ctx = Some c, val_ptr = Some (?as ! k)\<rparr>"
    by simp_all
  have addrs: "ws = [next_addr s ..< next_addr s + (length (Arguments info) + 1)]"
    using tracks_addresses [OF t] len by simp
  have other: "\<forall>a. a \<notin> set ws \<longrightarrow> vals s1 a = vals s a"
    using tracks_vals_other [OF t] by simp
  have new: "\<forall>k \<le> length (Arguments info). vals s1 (ws ! k) =
            Some \<lparr>val_iso = ?i, val_ctx = Some c, val_ptr = Some (?as ! k)\<rparr>"
    using vs by (simp add: less_Suc_eq_le)
  have reg: "registry_of s1 c = registry_of s c @ ws"
    and regs: "\<forall>c'. c' \<noteq> c \<longrightarrow> registry_of s1 c' = registry_of s c'"
    using tracks_registry_of [OF t] by simp_all
  have fresh: "registry_inv s \<longrightarrow> (\<forall>a \<in> set ws. vals s a = None)"
    using tracks_registered [OF _ t] by blast
  have call: "FunctionTemplateCallback goContext goFunctionCallback info s =
        (case goFunctionCallback ctx_ref (Data info) ws (int (length (Arguments info))) s1 of
           (None, s2) \<Rightarrow> Inr (Some Undefined, s2)
         | (Some v, s2) \<Rightarrow>
             (case vals s2 v of
                None \<Rightarrow> Inl DanglingPointer
              | Some m \<Rightarrow> Inr (val_ptr m, s2)))"
    using iso ref ctx wt
    by (auto simp: FunctionTemplateCallback_def ISOLATE_SCOPE_def Let_def bnd_def deref_def
        nonempty_def split: prod.splits option.splits)
  from wt addrs other new reg regs fresh call show ?thesis by blast
qed

theorem C4_callback_bridge_witness:
  "(\<exists>s1. FunctionTemplateCallback (\<lambda>r. if r = 7 then Some 1 else None)
           (\<lambda>ctx_ref callback_ref thisAndArgs args_count st. (Some (thisAndArgs ! 1), st))
           \<lparr>GetIsolate = 0, GetCurrentContext = \<lparr>EmbedderData1 = Some 7, Global = Object 0\<rparr>,
            Data = 3, This = Object 9, Arguments = [Integer 2, Integer 3]\<rparr> example_store
         = Inr (Some (Integer 2), s1)
       \<and> registry_of s1 1 = [4, 5, 6, 7, 8])
   \<and> (\<exists>s1. FunctionTemplateCallback (\<lambda>r. if r = 7 then Some 1 else None)
           (\<lambda>ctx_ref callback_ref thisAndArgs args_count st. (None, st))
           \<lparr>GetIsolate = 0, GetCurrentContext = \<lparr>EmbedderData1 = Some 7, Global = Object 0\<rparr>,
            Data = 3, This = Object 9, Arguments = []\<rparr> example_store
         = Inr (Some Undefined, s1)
       \<and> registry_of s1 1 = [4, 5, 6])"
proof -
  let ?info = "\<lparr>GetIsolate = 0, GetCurrentContext = \<lparr>EmbedderData1 = Some 7, Global = Object 0\<rparr>,
            Data = 3, This = Object 9, Arguments = [Integer 2, Integer 3]\<rparr>"
  let ?noargs = "\<lparr>GetIsolate = 0, GetCurrentContext = \<lparr>EmbedderData1 = Some 7, Global = Object 0\<rparr>,
            Data = 3, This = Object 9, Arguments = []\<rparr>"
  let ?host = "\<lambda>(ctx_ref :: int32) (callback_ref :: int32) (thisAndArgs :: nat list)
      (args_count :: int) (st :: store). (Some (thisAndArgs ! 1), st)"
  let ?nullhost = "\<lambda>(ctx_ref :: int32) (callback_ref :: int32) (thisAndArgs :: nat list)
      (args_count :: int) (st :: store). (None :: nat option, st)"
  have h1: "isos example_store (GetIsolate ?info) \<noteq> None" by (simp add: example_store_def)
  have h2: "EmbedderData1 (GetCurrentContext ?info) = Some 7" by simp
  have h3: "(\<lambda>r :: int32. if r = 7 then Some (1 :: nat) else None) 7 = Some 1" by simp
  have h4: "ctxs example_store 1 \<noteq> None" by (simp add: example_store_def)
  have k1: "isos example_store (GetIsolate ?noargs) \<noteq> None" by (simp add: example_store_def)
  have k2: "EmbedderData1 (GetCurrentContext ?noargs) = Some 7" by simp
  from C4_callback_bridge [where goContext = "\<lambda>r. if r = 7 then Some 1 else None"
      and goFunctionCallback = ?host, OF h1 h2 h3 h4]
  obtain ws s1
    where ws: "ws = [next_addr example_store ..<
                       next_addr example_store + (length (Arguments ?info) + 1)]"
    and new: "\<forall>k \<le> length (Arguments ?info). vals s1 (ws ! k) =
            Some \<lparr>val_iso = GetIsolate ?info, val_ctx = Some 1,
                  val_ptr = Some ((This ?info # Arguments ?info) ! k)\<rparr>"
    and reg: "registry_of s1 1 = registry_of example_store 1 @ ws"
    and call: "FunctionTemplateCallback (\<lambda>r. if r = 7 then Some 1 else None) ?host ?info
        example_store =
        (case ?host 7 (Data ?info) ws (int (length (Arguments ?info))) s1 of
           (None, s2) \<Rightarrow> Inr (Some Undefined, s2)
         | (Some v, s2) \<Rightarrow>
             (case vals s2 v of
                None \<Rightarrow> Inl DanglingPointer
              | Some m \<Rightarrow> Inr (val_ptr m, s2)))"
    by blast
  from new [rule_format, of 1] have "vals s1 (ws ! 1) =
      Some \<lparr>val_iso = 0, val_ctx = Some 1, val_ptr = Some (Integer 2)\<rparr>"
    by simp
  with call have "FunctionTemplateCallback (\<lambda>r. if r = 7 then Some 1 else None) ?host ?info
        example_store = Inr (Some (Integer 2), s1)"
    by simp
  moreover from ws reg have "registry_of s1 1 = [4, 5, 6, 7, 8]"
    by (simp add: registry_of_def example_store_def upt_rec)
  ultimately have first: "\<exists>s1. FunctionTemplateCallback (\<lambda>r. if r = 7 then Some 1 else None)
      ?host ?info example_store = Inr (Some (Integer 2), s1)
       \<and> registry_of s1 1 = [4, 5, 6, 7, 8]"
    by blast
  from C4_callback_bridge [where goContext = "\<lambda>r. if r = 7 then Some 1 else None"
      and goFunctionCallback = ?nullhost, OF k1 k2 h3 h4]
  obtain ws0 s0
    where ws0: "ws0 = [next_addr example_store ..<
                       next_addr example_store + (length (Arguments ?noargs) + 1)]"
    and reg0: "registry_of s0 1 = registry_of example_store 1 @ ws0"
    and call0: "FunctionTemplateCallback (\<lambda>r. if r = 7 then Some 1 else None) ?nullhost ?noargs
        example_store =
        (case ?nullhost 7 (Data ?noargs) ws0 (int (length (Arguments ?noargs))) s0 of
           (None, s2) \<Rightarrow> Inr (Some Undefined, s2)
         | (Some v, s2) \<Rightarrow>
             (case vals s2 v of
                None \<Rightarrow> Inl DanglingPointer
              | Some m \<Rightarrow> Inr (val_ptr m, s2)))"
    by blast
  from call0 have "FunctionTemplateCallback (\<lambda>r. if r = 7 then Some 1 else None) ?nullhost ?noargs
        example_store = Inr (Some Undefined, s0)"
    by simp
  moreover from ws0 reg0 have "registry_of s0 1 = [4, 5, 6]"
    by (simp add: registry_of_def example_store_def upt_rec)
  ultimately have second: "\<exists>s1. FunctionTemplateCallback (\<lambda>r. if r = 7 then Some 1 else None)
      ?nullhost ?noargs example_store = Inr (Some Undefined, s1)
       \<and> registry_of s1 1 = [4, 5, 6]"
    by blast
  from first second show ?thesis by blast
qed

end
